theory Spec2Isabelle
  imports Complex_Main "HOL-Library.Multiset"
begin

section \<open>Python floats\<close>

text \<open>
  The distances handled by \<^verbatim>\<open>leap.py\<close> are Python floats. A float is either not a
  number, an infinity, or a finite value, which is modelled by the real number it denotes.
  Comparisons follow IEEE 754: every ordered comparison with NaN is false, and are exact.
  Arithmetic rounds; the model does not fix how. The operations that the source applies to
  floats are the fields of a record \<open>float_arith\<close>, of which the functions below take a
  value, so that what is proved holds for binary64 arithmetic as for any other.
\<close>

datatype pyfloat = NaN | NInf | Fin real | PInf

fun isnan :: "pyfloat \<Rightarrow> bool" where
  "isnan NaN = True"
| "isnan _ = False"

text \<open>\<^verbatim>\<open>a < b\<close> on floats.\<close>

fun flt :: "pyfloat \<Rightarrow> pyfloat \<Rightarrow> bool" where
  "flt NaN _ = False"
| "flt _ NaN = False"
| "flt NInf NInf = False"
| "flt NInf _ = True"
| "flt (Fin x) (Fin y) = (x < y)"
| "flt (Fin x) PInf = True"
| "flt (Fin x) NInf = False"
| "flt PInf _ = False"

text \<open>\<^verbatim>\<open>a >= b\<close> on floats.\<close>

fun fge :: "pyfloat \<Rightarrow> pyfloat \<Rightarrow> bool" where
  "fge NaN _ = False"
| "fge _ NaN = False"
| "fge a b = (\<not> flt a b)"

text \<open>Negation, sum, difference and product without rounding: exact on finite values,
  as IEEE 754 has them on NaN and the infinities.\<close>

fun fneg :: "pyfloat \<Rightarrow> pyfloat" where
  "fneg NaN = NaN"
| "fneg NInf = PInf"
| "fneg (Fin x) = Fin (- x)"
| "fneg PInf = NInf"

fun fadd :: "pyfloat \<Rightarrow> pyfloat \<Rightarrow> pyfloat" where
  "fadd NaN _ = NaN"
| "fadd _ NaN = NaN"
| "fadd (Fin x) (Fin y) = Fin (x + y)"
| "fadd PInf NInf = NaN"
| "fadd NInf PInf = NaN"
| "fadd PInf _ = PInf"
| "fadd _ PInf = PInf"
| "fadd NInf _ = NInf"
| "fadd _ NInf = NInf"

definition fsub :: "pyfloat \<Rightarrow> pyfloat \<Rightarrow> pyfloat" where
  "fsub a b = fadd a (fneg b)"

text \<open>The infinity with the sign of \<open>x\<close>, and NaN for \<open>x = 0\<close>: the product of an
  infinity and the finite value \<open>x\<close>.\<close>

definition inf_times :: "bool \<Rightarrow> real \<Rightarrow> pyfloat" where
  "inf_times positive x =
     (if x = 0 then NaN
      else if (0 < x) = positive then PInf else NInf)"

fun fmul :: "pyfloat \<Rightarrow> pyfloat \<Rightarrow> pyfloat" where
  "fmul NaN _ = NaN"
| "fmul _ NaN = NaN"
| "fmul (Fin x) (Fin y) = Fin (x * y)"
| "fmul PInf (Fin y) = inf_times True y"
| "fmul NInf (Fin y) = inf_times False y"
| "fmul (Fin x) PInf = inf_times True x"
| "fmul (Fin x) NInf = inf_times False x"
| "fmul PInf PInf = PInf"
| "fmul NInf NInf = PInf"
| "fmul PInf NInf = NInf"
| "fmul NInf PInf = NInf"

definition exact_of_int :: "int \<Rightarrow> pyfloat" where
  "exact_of_int i = Fin (of_int i)"

text \<open>
  The operations \<^verbatim>\<open>*\<close>, \<^verbatim>\<open>+\<close> and \<^verbatim>\<open>-\<close> on floats and the conversion of a Python int
  that takes part in them.
\<close>

record float_arith =
  float_mul :: "pyfloat \<Rightarrow> pyfloat \<Rightarrow> pyfloat"
  float_add :: "pyfloat \<Rightarrow> pyfloat \<Rightarrow> pyfloat"
  float_sub :: "pyfloat \<Rightarrow> pyfloat \<Rightarrow> pyfloat"
  float_of_int :: "int \<Rightarrow> pyfloat"

text \<open>An operation with a NaN operand gives NaN, as IEEE 754 has it.\<close>

definition nan_propagating :: "float_arith \<Rightarrow> bool" where
  "nan_propagating ar =
     (\<forall>a b. isnan a \<or> isnan b \<longrightarrow>
        isnan (float_mul ar a b) \<and> isnan (float_add ar a b) \<and> isnan (float_sub ar a b))"

text \<open>
  The arithmetic without rounding, built from the functions above. It is the arithmetic
  of the concrete search further down, whose values are small integers, on which binary64
  arithmetic does not round either.
\<close>

definition exact_arith :: float_arith where
  "exact_arith =
     \<lparr>float_mul = fmul, float_add = fadd, float_sub = fsub, float_of_int = exact_of_int\<rparr>"

section \<open>LEAP synthesis: \<^verbatim>\<open>bqskit/passes/synthesis/leap.py\<close>\<close>

subsection \<open>The options of a \<^verbatim>\<open>LEAPSynthesisPass\<close>\<close>

text \<open>
  The fields of \<^verbatim>\<open>self\<close> that \<^verbatim>\<open>synthesize\<close>, \<^verbatim>\<open>check_new_best\<close> and
  \<^verbatim>\<open>check_leap_condition\<close> read. The heuristic function, the layer generator, the cost
  function and the instantiation are external procedures; they are arguments of the
  functions that call them.
\<close>

record leap_pass =
  success_threshold :: pyfloat
  max_layer :: "int option"
  no_progress_layers_allowed :: int
  store_partial_solutions :: bool
  partials_per_depth :: int
  min_prefix_size :: int

subsection \<open>\<^verbatim>\<open>check_new_best\<close>\<close>

text \<open>The argument \<^verbatim>\<open>dist\<close> of the source is written \<open>dst\<close>: \<open>dist\<close> is a constant of
  the library.\<close>

definition check_new_best :: "leap_pass \<Rightarrow> int \<Rightarrow> pyfloat \<Rightarrow> int \<Rightarrow> pyfloat \<Rightarrow> bool" where
  "check_new_best self layer dst best_layer best_dist =
     (let better_layer =
            (flt dst best_dist
             \<and> (fge best_dist (success_threshold self) \<or> layer \<le> best_layer));
          better_dist_and_layer =
            (flt dst (success_threshold self) \<and> layer < best_layer)
      in better_layer \<or> better_dist_and_layer)"

subsection \<open>\<^verbatim>\<open>check_leap_condition\<close>\<close>

text \<open>
  \<^verbatim>\<open>scipy.stats.linregress\<close> is a library procedure: it is the argument \<open>linregress\<close>,
  which returns the slope and the intercept. The float arithmetic is the argument \<open>ar\<close>.
  The two history lists are mutated in place by the source; the model returns them
  updated, together with the result.
\<close>

type_synonym linregress_fn = "int list \<Rightarrow> pyfloat list \<Rightarrow> pyfloat \<times> pyfloat"

definition predicted_best_of ::
  "float_arith \<Rightarrow> linregress_fn \<Rightarrow> int \<Rightarrow> int list \<Rightarrow> pyfloat list \<Rightarrow> pyfloat" where
  "predicted_best_of ar linregress new_layer best_layers best_dists =
     (case linregress best_layers best_dists of
        (m, y_int) \<Rightarrow> float_add ar (float_mul ar m (float_of_int ar new_layer)) y_int)"

definition check_leap_condition ::
  "leap_pass \<Rightarrow> float_arith \<Rightarrow> linregress_fn \<Rightarrow> int \<Rightarrow> pyfloat \<Rightarrow> int list
     \<Rightarrow> pyfloat list \<Rightarrow> int \<Rightarrow> bool \<times> int list \<times> pyfloat list" where
  "check_leap_condition self ar linregress new_layer best_dist best_layers best_dists
       last_prefix_layer =
     (let predicted_best = predicted_best_of ar linregress new_layer best_layers best_dists;
          best_layers' = best_layers @ [new_layer];
          best_dists' = best_dists @ [best_dist]
      in if isnan predicted_best then (False, best_layers', best_dists')
         else
           (let delta = float_sub ar predicted_best best_dist;
                layers_added = new_layer - last_prefix_layer
            in (flt delta (Fin 0) \<and> layers_added \<ge> min_prefix_size self,
                best_layers', best_dists')))"

subsection \<open>The search frontier\<close>

text \<open>
  Modelled from the spec: the class \<^verbatim>\<open>Frontier\<close> of \<^verbatim>\<open>bqskit.passes.search.frontier\<close>,
  which \<^verbatim>\<open>synthesize\<close> uses and whose source is not at hand. It is a priority queue of
  (circuit, layer) pairs ordered by the heuristic value of the circuit, ties broken by
  insertion order, with the operations \<^verbatim>\<open>add\<close>, \<^verbatim>\<open>pop\<close> (the minimum), \<^verbatim>\<open>empty\<close> and
  \<^verbatim>\<open>clear\<close>. An entry carries its heuristic value and its insertion number.
\<close>

type_synonym 'c entry = "(real \<times> nat) \<times> ('c \<times> int)"

record 'c frontier =
  entries :: "'c entry list"
  counter :: nat

definition frontier_new :: "'c frontier" where
  "frontier_new = \<lparr>entries = [], counter = 0\<rparr>"

definition frontier_add :: "('c \<Rightarrow> real) \<Rightarrow> 'c frontier \<Rightarrow> 'c \<Rightarrow> int \<Rightarrow> 'c frontier" where
  "frontier_add h f circuit layer_num =
     \<lparr>entries = entries f @ [((h circuit, counter f), (circuit, layer_num))],
      counter = counter f + 1\<rparr>"

definition frontier_empty :: "'c frontier \<Rightarrow> bool" where
  "frontier_empty f = (entries f = [])"

definition frontier_clear :: "'c frontier \<Rightarrow> 'c frontier" where
  "frontier_clear f = f\<lparr>entries := []\<rparr>"

definition key_less :: "real \<times> nat \<Rightarrow> real \<times> nat \<Rightarrow> bool" where
  "key_less k1 k2 = (fst k1 < fst k2 \<or> (fst k1 = fst k2 \<and> snd k1 < snd k2))"

fun min_entry :: "'c entry \<Rightarrow> 'c entry list \<Rightarrow> 'c entry" where
  "min_entry e [] = e"
| "min_entry e (x # xs) = min_entry (if key_less (fst x) (fst e) then x else e) xs"

definition frontier_pop :: "'c frontier \<Rightarrow> (('c \<times> int) \<times> 'c frontier) option" where
  "frontier_pop f =
     (case entries f of
        [] \<Rightarrow> None
      | e # es \<Rightarrow>
          (let m = min_entry e es
           in Some (snd m, f\<lparr>entries := remove1 m (entries f)\<rparr>)))"

subsection \<open>The state of one \<^verbatim>\<open>synthesize\<close> call\<close>

datatype py_error = IndexError | ZeroDivisionError | TypeError | ValueError
  | NotImplementedError

text \<open>The calls of \<^verbatim>\<open>_logger.warning\<close>; debug messages are not modelled.\<close>

datatype warning =
    NoImprovement int
  | FrontierEmptied
  | ReturningBestKnown int pyfloat

type_synonym 'c partials = "int \<rightharpoonup> ('c \<times> pyfloat) list"

record 'c search_state =
  frontier :: "'c frontier"
  best_dist :: pyfloat
  best_circ :: 'c
  best_layer :: int
  best_dists :: "pyfloat list"
  best_layers :: "int list"
  last_prefix_layer :: int
  psols :: "'c partials"
  warned_layers :: "int list"
  warnings :: "warning list"

text \<open>
  What a call ends with: the circuit it returns, with the value it has stored under
  \<^verbatim>\<open>data['psols']\<close> (if any) and the warnings it has logged, or the exception it raises.
\<close>

datatype 'c outcome =
    Returned 'c "'c partials option" "warning list"
  | Raised py_error

text \<open>
  The procedures \<^verbatim>\<open>synthesize\<close> calls on its collaborators: the heuristic function of
  the frontier, \<^verbatim>\<open>layer_gen.gen_initial_layer\<close>, \<^verbatim>\<open>layer_gen.gen_successors\<close>,
  \<^verbatim>\<open>Circuit.instantiate\<close> (which the runtime maps over the successors, results in input
  order), \<^verbatim>\<open>self.cost.calc_cost\<close> and \<^verbatim>\<open>linregress\<close>; and, of the language, the float
  arithmetic and \<^verbatim>\<open>list.sort\<close> with the cost as key, which sorts the partial solutions.
  The target and the pass data are fixed during a call and are part of these procedures.
\<close>

record 'c leap_env =
  heuristic :: "'c \<Rightarrow> real"
  gen_initial_layer :: 'c
  gen_successors :: "'c \<Rightarrow> 'c list"
  instantiate :: "'c \<Rightarrow> 'c"
  calc_cost :: "'c \<Rightarrow> pyfloat"
  linregress :: linregress_fn
  arith :: float_arith
  list_sort :: "('c \<times> pyfloat) list \<Rightarrow> ('c \<times> pyfloat) list"

subsection \<open>The body of the loop over the instantiated successors\<close>

text \<open>\<^verbatim>\<open>self.max_layer is None or layer + 1 < self.max_layer\<close>\<close>

definition below_max_layer :: "leap_pass \<Rightarrow> int \<Rightarrow> bool" where
  "below_max_layer self layer =
     (case max_layer self of None \<Rightarrow> True | Some ml \<Rightarrow> layer + 1 < ml)"

text \<open>Lines 259 to 263: the prefix is formed.\<close>

definition prefix_freeze ::
  "leap_pass \<Rightarrow> 'c leap_env \<Rightarrow> int \<Rightarrow> 'c \<Rightarrow> 'c search_state \<Rightarrow> 'c search_state" where
  "prefix_freeze self env layer circuit st =
     (let st1 = st\<lparr>last_prefix_layer := layer + 1\<rparr>;
          st2 = st1\<lparr>frontier := frontier_clear (frontier st1)\<rparr>
      in if below_max_layer self layer
         then st2\<lparr>frontier := frontier_add (heuristic env) (frontier st2) circuit (layer + 1)\<rparr>
         else st2)"

text \<open>Lines 242 to 263: the new best circuit and the test of the leap condition.\<close>

definition update_best ::
  "leap_pass \<Rightarrow> 'c leap_env \<Rightarrow> int \<Rightarrow> 'c \<Rightarrow> pyfloat \<Rightarrow> 'c search_state \<Rightarrow> 'c search_state" where
  "update_best self env layer circuit dst st =
     (if check_new_best self (layer + 1) dst (best_layer st) (best_dist st) then
        (let st1 = st\<lparr>best_dist := dst, best_circ := circuit, best_layer := layer + 1\<rparr>
         in case check_leap_condition self (arith env) (linregress env) (layer + 1) (best_dist st1)
                   (best_layers st1) (best_dists st1) (last_prefix_layer st1) of
              (leap, layers', dists') \<Rightarrow>
                (let st2 = st1\<lparr>best_layers := layers', best_dists := dists'\<rparr>
                 in if leap then prefix_freeze self env layer circuit st2 else st2))
      else st)"

text \<open>
  \<^verbatim>\<open>psols[layer].sort(key=lambda x: x[1])\<close> is \<open>list_sort env\<close>. What \<^verbatim>\<open>list.sort\<close> does
  with keys that are not totally ordered (a NaN cost) depends on its algorithm, which the
  model does not fix. The following insertion sort is one sort; it is the one of the
  concrete search further down. It is not used as the model of \<^verbatim>\<open>list.sort\<close>.
\<close>

fun insert_by_cost :: "'c \<times> pyfloat \<Rightarrow> ('c \<times> pyfloat) list \<Rightarrow> ('c \<times> pyfloat) list" where
  "insert_by_cost x [] = [x]"
| "insert_by_cost x (y # ys) =
     (if flt (snd y) (snd x) then y # insert_by_cost x ys else x # y # ys)"

definition insertion_sort_by_cost :: "('c \<times> pyfloat) list \<Rightarrow> ('c \<times> pyfloat) list" where
  "insertion_sort_by_cost xs = foldr insert_by_cost xs []"

text \<open>Lines 266 to 273: the partial solutions of depth \<open>layer\<close>.\<close>

definition store_partial ::
  "leap_pass \<Rightarrow> 'c leap_env \<Rightarrow> int \<Rightarrow> 'c \<Rightarrow> pyfloat \<Rightarrow> 'c search_state
     \<Rightarrow> 'c search_state" where
  "store_partial self env layer circuit dst st =
     (let bucket0 = (case psols st layer of None \<Rightarrow> [] | Some b \<Rightarrow> b);
          bucket1 = bucket0 @ [(circuit, dst)];
          bucket2 = (if int (length bucket1) > partials_per_depth self
                     then butlast (list_sort env bucket1) else bucket1)
      in st\<lparr>psols := (psols st)(layer \<mapsto> bucket2)\<rparr>)"

text \<open>The value stored under \<^verbatim>\<open>data['psols']\<close> before a return.\<close>

definition stored_psols :: "leap_pass \<Rightarrow> 'c search_state \<Rightarrow> 'c partials option" where
  "stored_psols self st = (if store_partial_solutions self then Some (psols st) else None)"

text \<open>Lines 232 to 276: one instantiated successor. \<open>Inl\<close> leaves \<^verbatim>\<open>synthesize\<close>.\<close>

definition eval_circuit ::
  "leap_pass \<Rightarrow> 'c leap_env \<Rightarrow> int \<Rightarrow> 'c search_state \<Rightarrow> 'c
     \<Rightarrow> 'c outcome + 'c search_state" where
  "eval_circuit self env layer st circuit =
     (let dst = calc_cost env circuit
      in if flt dst (success_threshold self)
         then Inl (Returned circuit (stored_psols self st) (warnings st))
         else
           (let st1 = update_best self env layer circuit dst st;
                st2 = (if store_partial_solutions self
                       then store_partial self env layer circuit dst st1 else st1)
            in Inr (if below_max_layer self layer
                    then st2\<lparr>frontier :=
                           frontier_add (heuristic env) (frontier st2) circuit (layer + 1)\<rparr>
                    else st2)))"

fun eval_circuits ::
  "leap_pass \<Rightarrow> 'c leap_env \<Rightarrow> int \<Rightarrow> 'c search_state \<Rightarrow> 'c list
     \<Rightarrow> 'c outcome + 'c search_state" where
  "eval_circuits self env layer st [] = Inr st"
| "eval_circuits self env layer st (circuit # circuits) =
     (case eval_circuit self env layer st circuit of
        Inl r \<Rightarrow> Inl r
      | Inr st' \<Rightarrow> eval_circuits self env layer st' circuits)"

subsection \<open>The main loop\<close>

text \<open>Lines 278 to 288. The remainder by zero raises.\<close>

definition no_progress_check ::
  "leap_pass \<Rightarrow> int \<Rightarrow> 'c search_state \<Rightarrow> 'c outcome + 'c search_state" where
  "no_progress_check self layer st =
     (let layer_diff = \<bar>best_layer st - layer\<bar>
      in if no_progress_layers_allowed self = 0 then Inl (Raised ZeroDivisionError)
         else if layer_diff mod no_progress_layers_allowed self = 0
                 \<and> layer_diff > 0 \<and> layer \<notin> set (warned_layers st)
         then Inr (st\<lparr>warnings := warnings st @ [NoImprovement (no_progress_layers_allowed self)],
                      warned_layers := warned_layers st @ [layer]\<rparr>)
         else Inr st)"

text \<open>Lines 214 to 288: one iteration of the while loop.\<close>

definition loop_body ::
  "leap_pass \<Rightarrow> 'c leap_env \<Rightarrow> 'c search_state \<Rightarrow> 'c outcome + 'c search_state" where
  "loop_body self env st =
     (case frontier_pop (frontier st) of
        None \<Rightarrow> Inl (Raised IndexError)
      | Some ((top_circuit, layer), f) \<Rightarrow>
          (let st0 = st\<lparr>frontier := f\<rparr>;
               successors = gen_successors env top_circuit
           in if length successors = 0 then Inr st0
              else
                (let circuits = map (instantiate env) successors
                 in case eval_circuits self env layer st0 circuits of
                      Inl r \<Rightarrow> Inl r
                    | Inr st1 \<Rightarrow> no_progress_check self layer st1)))"

text \<open>Lines 290 to 298: the frontier is empty.\<close>

definition frontier_emptied :: "leap_pass \<Rightarrow> 'c search_state \<Rightarrow> 'c outcome" where
  "frontier_emptied self st =
     Returned (best_circ st) (stored_psols self st)
       (warnings st @ [FrontierEmptied, ReturningBestKnown (best_layer st) (best_dist st)])"

text \<open>
  The while loop may run forever (a layer generator can always give successors and
  \<^verbatim>\<open>max_layer\<close> can be \<^verbatim>\<open>None\<close>). \<open>run_loop k\<close> runs at most \<open>k\<close> iterations: \<open>Inl\<close> is what
  the call ends with, \<open>Inr\<close> is the state after \<open>k\<close> iterations when the loop has not
  ended by then.
\<close>

fun run_loop ::
  "leap_pass \<Rightarrow> 'c leap_env \<Rightarrow> nat \<Rightarrow> 'c search_state \<Rightarrow> 'c outcome + 'c search_state" where
  "run_loop self env 0 st = Inr st"
| "run_loop self env (Suc k) st =
     (if frontier_empty (frontier st) then Inl (frontier_emptied self st)
      else (case loop_body self env st of
              Inl r \<Rightarrow> Inl r
            | Inr st' \<Rightarrow> run_loop self env k st'))"

subsection \<open>\<^verbatim>\<open>synthesize\<close>\<close>

text \<open>Lines 185 to 210: the state at the start of the loop.\<close>

definition initial_state :: "'c leap_env \<Rightarrow> 'c search_state" where
  "initial_state env =
     (let initial_layer = instantiate env (gen_initial_layer env);
          dst = calc_cost env initial_layer
      in \<lparr>frontier = frontier_add (heuristic env) frontier_new initial_layer 0,
          best_dist = dst,
          best_circ = initial_layer,
          best_layer = 0,
          best_dists = [dst],
          best_layers = [0],
          last_prefix_layer = 0,
          psols = Map.empty,
          warned_layers = [],
          warnings = []\<rparr>)"


subsection \<open>The condition under which a prefix is formed\<close>

text \<open>
  The tests that guard lines 259 to 263 for the successor \<open>circuit\<close> of a node popped at
  depth \<open>layer\<close>: it does not end the search, it is a new best, and the leap condition
  holds for it.
\<close>

definition freeze_condition ::
  "leap_pass \<Rightarrow> 'c leap_env \<Rightarrow> int \<Rightarrow> 'c search_state \<Rightarrow> 'c \<Rightarrow> bool" where
  "freeze_condition self env layer st circuit =
     (let dst = calc_cost env circuit
      in \<not> flt dst (success_threshold self)
         \<and> check_new_best self (layer + 1) dst (best_layer st) (best_dist st)
         \<and> fst (check_leap_condition self (arith env) (linregress env) (layer + 1) dst
                  (best_layers st) (best_dists st) (last_prefix_layer st)))"

text \<open>Every entry of the frontier has a depth of at least \<open>l\<close>.\<close>

definition layers_at_least :: "int \<Rightarrow> 'c frontier \<Rightarrow> bool" where
  "layers_at_least l f = list_all (\<lambda>e. l \<le> snd (snd e)) (entries f)"

text \<open>No bucket of partial solutions holds more than \<open>n\<close> entries.\<close>

definition buckets_bounded :: "int \<Rightarrow> 'c partials \<Rightarrow> bool" where
  "buckets_bounded n ps = (\<forall>l b. ps l = Some b \<longrightarrow> int (length b) \<le> n)"

text \<open>No entry after \<open>x\<close> costs less than \<open>x\<close>.\<close>

abbreviation ascending :: "('c \<times> pyfloat) list \<Rightarrow> bool" where
  "ascending \<equiv> sorted_wrt (\<lambda>x y. \<not> flt (snd y) (snd x))"

text \<open>No entry costs less than the entry before it.\<close>

abbreviation no_descent :: "('c \<times> pyfloat) list \<Rightarrow> bool" where
  "no_descent \<equiv> successively (\<lambda>x y. \<not> flt (snd y) (snd x))"

text \<open>
  What is used of \<^verbatim>\<open>list.sort\<close> with the cost as key: its result is a permutation of the
  list; it is ascending when the costs are totally ordered, that is, when none is NaN; and
  a list in which no entry costs less than the entry before it is one ascending run, which
  the sort leaves as it is.
\<close>

definition sort_contract :: "(('c \<times> pyfloat) list \<Rightarrow> ('c \<times> pyfloat) list) \<Rightarrow> bool" where
  "sort_contract srt =
     (\<forall>xs. mset (srt xs) = mset xs
           \<and> ((\<forall>x\<in>set xs. \<not> isnan (snd x)) \<longrightarrow> ascending (srt xs))
           \<and> (no_descent xs \<longrightarrow> srt xs = xs))"

section \<open>A concrete search\<close>

text \<open>
  A small search on which the theorems below are instantiated. Circuits are numbers; the
  root \<open>0\<close> has the successors \<open>2\<close> and \<open>3\<close>, which have none; the cost of \<open>c\<close> is \<open>10 - c\<close>;
  the regression always predicts \<open>0\<close>.
\<close>

definition example_pass :: leap_pass where
  "example_pass =
     \<lparr>success_threshold = Fin 1, max_layer = Some 3, no_progress_layers_allowed = 10,
      store_partial_solutions = True, partials_per_depth = 1, min_prefix_size = 1\<rparr>"

definition example_env :: "nat leap_env" where
  "example_env =
     \<lparr>heuristic = (\<lambda>c. real c),
      gen_initial_layer = 0,
      gen_successors = (\<lambda>c. if c = 0 then [2, 3] else []),
      instantiate = (\<lambda>c. c),
      calc_cost = (\<lambda>c. Fin (10 - real c)),
      linregress = (\<lambda>ls ds. (Fin 0, Fin 0)),
      arith = exact_arith,
      list_sort = insertion_sort_by_cost\<rparr>"

text \<open>The states the search goes through: at the start of the loop, after the pop of the
  root, after its first and second successor, and after each of the three later pops.\<close>

definition example_state0 :: "nat search_state" where
  "example_state0 =
     \<lparr>frontier = \<lparr>entries = [((0, 0), (0, 0))], counter = 1\<rparr>,
      best_dist = Fin 10, best_circ = 0, best_layer = 0,
      best_dists = [Fin 10], best_layers = [0], last_prefix_layer = 0,
      psols = Map.empty, warned_layers = [], warnings = []\<rparr>"

definition example_popped :: "nat search_state" where
  "example_popped = example_state0\<lparr>frontier := \<lparr>entries = [], counter = 1\<rparr>\<rparr>"

definition example_state1 :: "nat search_state" where
  "example_state1 =
     \<lparr>frontier = \<lparr>entries = [((2, 1), (2, 1)), ((2, 2), (2, 1))], counter = 3\<rparr>,
      best_dist = Fin 8, best_circ = 2, best_layer = 1,
      best_dists = [Fin 10, Fin 8], best_layers = [0, 1], last_prefix_layer = 1,
      psols = [0 \<mapsto> [(2, Fin 8)]], warned_layers = [], warnings = []\<rparr>"

definition example_state2 :: "nat search_state" where
  "example_state2 =
     \<lparr>frontier =
        \<lparr>entries = [((2, 1), (2, 1)), ((2, 2), (2, 1)), ((3, 3), (3, 1))], counter = 4\<rparr>,
      best_dist = Fin 7, best_circ = 3, best_layer = 1,
      best_dists = [Fin 10, Fin 8, Fin 7], best_layers = [0, 1, 1], last_prefix_layer = 1,
      psols = [0 \<mapsto> [(3, Fin 7)]], warned_layers = [], warnings = []\<rparr>"

definition example_state3 :: "nat search_state" where
  "example_state3 =
     example_state2\<lparr>frontier := \<lparr>entries = [((2, 2), (2, 1)), ((3, 3), (3, 1))], counter = 4\<rparr>\<rparr>"

definition example_state4 :: "nat search_state" where
  "example_state4 = example_state2\<lparr>frontier := \<lparr>entries = [((3, 3), (3, 1))], counter = 4\<rparr>\<rparr>"

definition example_state5 :: "nat search_state" where
  "example_state5 = example_state2\<lparr>frontier := \<lparr>entries = [], counter = 4\<rparr>\<rparr>"

text \<open>The same search with a cost function that returns NaN.\<close>

definition nan_cost_env :: "nat leap_env" where
  "nan_cost_env = example_env\<lparr>calc_cost := (\<lambda>c. NaN)\<rparr>"

text \<open>The same search with a cost function that is below the threshold, and with a
  negative \<^verbatim>\<open>partials_per_depth\<close>.\<close>

definition success_env :: "nat leap_env" where
  "success_env = example_env\<lparr>calc_cost := (\<lambda>c. Fin 0)\<rparr>"

definition negative_pass :: leap_pass where
  "negative_pass = example_pass\<lparr>partials_per_depth := - 1\<rparr>"

text \<open>The same search with room for two partial solutions per depth, on a root with the
  successors \<open>2\<close>, \<open>3\<close> and \<open>9\<close>, of cost \<open>5\<close>, NaN and \<open>1\<close>.\<close>

definition two_partials_pass :: leap_pass where
  "two_partials_pass = example_pass\<lparr>partials_per_depth := 2\<rparr>"

definition nan_bucket_env :: "nat leap_env" where
  "nan_bucket_env =
     example_env\<lparr>calc_cost :=
       (\<lambda>c. if c = 2 then Fin 5 else if c = 3 then NaN else if c = 9 then Fin 1 else Fin 10)\<rparr>"

text \<open>The same pass with no \<^verbatim>\<open>max_layer\<close>, and with a \<^verbatim>\<open>max_layer\<close> of one.\<close>

definition unbounded_pass :: leap_pass where
  "unbounded_pass = example_pass\<lparr>max_layer := None\<rparr>"

definition one_layer_pass :: leap_pass where
  "one_layer_pass = example_pass\<lparr>max_layer := Some 1\<rparr>"

section \<open>Gates, circuits and machine models\<close>

text \<open>
  Modelled from the spec: the classes \<^verbatim>\<open>Gate\<close>, \<^verbatim>\<open>CircuitGate\<close>, \<^verbatim>\<open>MeasurementPlaceholder\<close>,
  \<^verbatim>\<open>Operation\<close>, \<^verbatim>\<open>Circuit\<close>, \<^verbatim>\<open>CouplingGraph\<close> and \<^verbatim>\<open>MachineModel\<close>, which
  \<^verbatim>\<open>compile.py\<close> uses and whose sources are not at hand. A gate has a name and a number of
  qudits; a circuit gate is a gate whose body is a circuit; gate equality is structural.
  An operation is a gate at a location, an ordered tuple of qudit indices. A circuit is a
  sequence of operations over qudits of given radixes. Parameters and matrices play no
  part in what follows and are left out.
\<close>

datatype gate =
    Gate string nat
  | MeasurementPlaceholder nat
  | CircuitGate circuit
and circuit = Circuit "nat list" "operation list"
and operation = Operation gate "nat list"

fun radixes :: "circuit \<Rightarrow> nat list" where
  "radixes (Circuit rs ops) = rs"

fun operations :: "circuit \<Rightarrow> operation list" where
  "operations (Circuit rs ops) = ops"

definition num_qudits :: "circuit \<Rightarrow> nat" where
  "num_qudits c = length (radixes c)"

fun op_gate :: "operation \<Rightarrow> gate" where
  "op_gate (Operation g loc) = g"

fun location :: "operation \<Rightarrow> nat list" where
  "location (Operation g loc) = loc"

fun gate_num_qudits :: "gate \<Rightarrow> nat" where
  "gate_num_qudits (Gate name n) = n"
| "gate_num_qudits (MeasurementPlaceholder n) = n"
| "gate_num_qudits (CircuitGate c) = num_qudits c"

text \<open>The derived views of a circuit: the distinct gates present, the number of
  operations with a given gate, and the pairs of qudits that an operation acts on
  together.\<close>

definition gate_set :: "circuit \<Rightarrow> gate list" where
  "gate_set c = remdups (map op_gate (operations c))"

definition count_gate :: "circuit \<Rightarrow> gate \<Rightarrow> int" where
  "count_gate c g = int (length (filter (\<lambda>op. op_gate op = g) (operations c)))"

definition location_edges :: "nat list \<Rightarrow> (nat \<times> nat) list" where
  "location_edges loc = concat (map (\<lambda>a. map (\<lambda>b. (a, b)) (filter (\<lambda>b. a < b) loc)) loc)"

definition coupling_graph :: "circuit \<Rightarrow> (nat \<times> nat) list" where
  "coupling_graph c = remdups (concat (map (\<lambda>op. location_edges (location op)) (operations c)))"

text \<open>The invariant of a circuit: the location of an operation has as many qudits as its
  gate, without duplicates, all of them qudits of the circuit.\<close>

definition circuit_wf :: "circuit \<Rightarrow> bool" where
  "circuit_wf c =
     list_all (\<lambda>op. length (location op) = gate_num_qudits (op_gate op)
                  \<and> distinct (location op)
                  \<and> list_all (\<lambda>q. q < num_qudits c) (location op))
       (operations c)"

record machine_model =
  model_num_qudits :: nat
  model_radixes :: "nat list"
  model_gate_set :: "gate list"
  model_coupling_graph :: "(nat \<times> nat) list"

text \<open>\<^verbatim>\<open>e in model.coupling_graph\<close>: the pairs of a coupling graph are unordered.\<close>

definition in_coupling_graph :: "nat \<times> nat \<Rightarrow> (nat \<times> nat) list \<Rightarrow> bool" where
  "in_coupling_graph e graph = (e \<in> set graph \<or> (snd e, fst e) \<in> set graph)"

text \<open>\<^verbatim>\<open>MachineModel(n)\<close>: all-to-all hardware of \<open>n\<close> qubits with CNOT and U3.\<close>

definition CNOTGate :: gate where
  "CNOTGate = Gate ''CNOTGate'' 2"

definition U3Gate :: gate where
  "U3Gate = Gate ''U3Gate'' 1"

definition default_model :: "nat \<Rightarrow> machine_model" where
  "default_model n =
     \<lparr>model_num_qudits = n, model_radixes = replicate n 2,
      model_gate_set = [CNOTGate, U3Gate],
      model_coupling_graph = location_edges [0..<n]\<rparr>"

section \<open>The replace filter: \<^verbatim>\<open>_gen_replace_filter\<close> of \<^verbatim>\<open>bqskit/compiler/compile.py\<close>\<close>

text \<open>The comparison \<^verbatim>\<open><\<close> of two pairs of ints.\<close>

definition tuple_less :: "int \<times> int \<Rightarrow> int \<times> int \<Rightarrow> bool" where
  "tuple_less a b = (fst a < fst b \<or> (fst a = fst b \<and> snd a < snd b))"

text \<open>
  Lines 706 to 710: \<^verbatim>\<open>any(...)\<close> over the edges of \<^verbatim>\<open>org\<close>, in the order of iteration.
  It stops at the first edge outside the coupling graph of the model; indexing the location
  out of range raises.
\<close>

fun any_edge_outside :: "machine_model \<Rightarrow> nat list \<Rightarrow> (nat \<times> nat) list \<Rightarrow> py_error + bool" where
  "any_edge_outside model loc [] = Inr False"
| "any_edge_outside model loc (e # es) =
     (if fst e < length loc \<and> snd e < length loc then
        (if \<not> in_coupling_graph (loc ! fst e, loc ! snd e) (model_coupling_graph model)
         then Inr True
         else any_edge_outside model loc es)
      else Inl IndexError)"

text \<open>\<^verbatim>\<open>sum(c.count(g) for g in c.gate_set if g.num_qudits == 1)\<close> and the same with
  \<^verbatim>\<open>g.num_qudits >= 2\<close>.\<close>

definition sq_count :: "circuit \<Rightarrow> int" where
  "sq_count c = sum_list (map (count_gate c) (filter (\<lambda>g. gate_num_qudits g = 1) (gate_set c)))"

definition mq_count :: "circuit \<Rightarrow> int" where
  "mq_count c = sum_list (map (count_gate c) (filter (\<lambda>g. gate_num_qudits g \<ge> 2) (gate_set c)))"

definition replace_filter :: "machine_model \<Rightarrow> circuit \<Rightarrow> operation \<Rightarrow> py_error + bool" where
  "replace_filter model new old =
     (case op_gate old of
        CircuitGate org \<Rightarrow>
          (if list_ex (\<lambda>g. g \<notin> set (model_gate_set model)) (gate_set org) then Inr True
           else
             (case any_edge_outside model (location old) (coupling_graph org) of
                Inl err \<Rightarrow> Inl err
              | Inr True \<Rightarrow> Inr True
              | Inr False \<Rightarrow>
                  (let org_sq_n = sq_count org;
                       org_mq_n = mq_count org;
                       new_sq_n = sq_count new;
                       new_mq_n = mq_count new
                   in Inr (tuple_less (new_mq_n, new_sq_n) (org_mq_n, org_sq_n)))))
      | _ \<Rightarrow> Inr True)"

definition gen_replace_filter :: "machine_model \<Rightarrow> (circuit \<Rightarrow> operation \<Rightarrow> py_error + bool)" where
  "gen_replace_filter model = replace_filter model"

text \<open>The conditions of the legality branches, and the location covering the edges of the
  body so that no index is out of range.\<close>

definition has_non_native_gate :: "machine_model \<Rightarrow> circuit \<Rightarrow> bool" where
  "has_non_native_gate model org = (\<exists>g\<in>set (gate_set org). g \<notin> set (model_gate_set model))"

definition has_edge_outside :: "machine_model \<Rightarrow> nat list \<Rightarrow> circuit \<Rightarrow> bool" where
  "has_edge_outside model loc org =
     (\<exists>e\<in>set (coupling_graph org).
        \<not> in_coupling_graph (loc ! fst e, loc ! snd e) (model_coupling_graph model))"

definition location_covers :: "nat list \<Rightarrow> circuit \<Rightarrow> bool" where
  "location_covers loc org =
     (\<forall>e\<in>set (coupling_graph org). fst e < length loc \<and> snd e < length loc)"

text \<open>A machine of three qubits on a line, and blocks of two qubits.\<close>

definition example_model :: machine_model where
  "example_model =
     \<lparr>model_num_qudits = 3, model_radixes = [2, 2, 2],
      model_gate_set = [CNOTGate, U3Gate],
      model_coupling_graph = [(0, 1), (1, 2)]\<rparr>"

definition example_org :: circuit where
  "example_org =
     Circuit [2, 2]
       [Operation CNOTGate [0, 1], Operation U3Gate [0], Operation CNOTGate [0, 1]]"

definition example_new :: circuit where
  "example_new = Circuit [2, 2] [Operation CNOTGate [0, 1], Operation U3Gate [0]]"

definition example_swap_org :: circuit where
  "example_swap_org = Circuit [2, 2] [Operation (Gate ''SwapGate'' 2) [0, 1]]"

section \<open>The entry point: \<^verbatim>\<open>compile\<close> of \<^verbatim>\<open>bqskit/compiler/compile.py\<close>\<close>

text \<open>
  Modelled from the spec: the classes \<^verbatim>\<open>UnitaryMatrix\<close> and \<^verbatim>\<open>StateVector\<close>, the test
  \<^verbatim>\<open>is_integer\<close>, and the passes of the workflows, which \<^verbatim>\<open>compile.py\<close> uses and whose
  sources are not at hand. The input is dispatched on its runtime type: a circuit,
  something that \<^verbatim>\<open>UnitaryMatrix.is_unitary\<close> accepts, something that
  \<^verbatim>\<open>StateVector.is_pure_state\<close> accepts, or anything else. Of a unitary and of a state
  only the radixes are read. The model is \<^verbatim>\<open>None\<close>, a \<^verbatim>\<open>MachineModel\<close> or any other
  object; \<^verbatim>\<open>optimization_level\<close> and \<^verbatim>\<open>max_synthesis_size\<close> are integers or any other
  object.
\<close>

datatype compile_input =
    InputCircuit circuit
  | InputUnitary "nat list"
  | InputState "nat list"
  | InputOther

datatype model_arg = ModelNone | Model machine_model | ModelOther

datatype int_arg = IntArg int | NotInt

fun input_radixes :: "compile_input \<Rightarrow> nat list" where
  "input_radixes (InputCircuit c) = radixes c"
| "input_radixes (InputUnitary rs) = rs"
| "input_radixes (InputState rs) = rs"
| "input_radixes InputOther = []"

definition input_num_qudits :: "compile_input \<Rightarrow> nat" where
  "input_num_qudits input = length (input_radixes input)"

text \<open>\<^verbatim>\<open>all(r == 2 for r in radixes)\<close>\<close>

definition all_qubits :: "nat list \<Rightarrow> bool" where
  "all_qubits rs = list_all (\<lambda>r. r = 2) rs"

fun is_measurement :: "gate \<Rightarrow> bool" where
  "is_measurement (MeasurementPlaceholder n) = True"
| "is_measurement _ = False"

text \<open>
  A compilation task is a circuit and a workflow. The passes of the workflows are classes
  outside the given sources; of a workflow the model records what it is built from: the
  model, the optimization level and the smallest entangler size.
\<close>

record compilation_task =
  task_circuit :: circuit
  task_model :: machine_model
  task_level :: int
  task_entangler_size :: nat

text \<open>\<^verbatim>\<open>min(g.num_qudits for g in model.gate_set if g.num_qudits != 1)\<close>, which raises
  on an empty sequence.\<close>

definition smallest_entangler_size :: "machine_model \<Rightarrow> py_error + nat" where
  "smallest_entangler_size model =
     (case filter (\<lambda>n. n \<noteq> 1) (map gate_num_qudits (model_gate_set model)) of
        [] \<Rightarrow> Inl ValueError
      | n # ns \<Rightarrow> Inr (fold min ns n))"

text \<open>\<^verbatim>\<open>_circuit_workflow\<close> with \<^verbatim>\<open>_opt1_workflow\<close> to \<^verbatim>\<open>_opt4_workflow\<close>. The level is
  between 1 and 4 when it is called.\<close>

definition circuit_workflow :: "circuit \<Rightarrow> machine_model \<Rightarrow> int \<Rightarrow> py_error + compilation_task" where
  "circuit_workflow c model optimization_level =
     (if optimization_level = 4 then Inl NotImplementedError
      else
        (case smallest_entangler_size model of
           Inl err \<Rightarrow> Inl err
         | Inr n \<Rightarrow>
             Inr \<lparr>task_circuit = c, task_model = model, task_level = optimization_level,
                  task_entangler_size = n\<rparr>))"

definition stateprep_workflow :: "nat list \<Rightarrow> machine_model \<Rightarrow> int \<Rightarrow> py_error + compilation_task" where
  "stateprep_workflow state model optimization_level = Inl NotImplementedError"

text \<open>\<^verbatim>\<open>Circuit.from_unitary\<close>: one gate over all the qudits.\<close>

definition from_unitary :: "nat list \<Rightarrow> circuit" where
  "from_unitary rs =
     Circuit rs [Operation (Gate ''ConstantUnitaryGate'' (length rs)) [0..<length rs]]"

text \<open>Lines 207 to 265: the size checks and the construction of the task.\<close>

definition task_of_input ::
  "compile_input \<Rightarrow> machine_model \<Rightarrow> int \<Rightarrow> int \<Rightarrow> py_error + compilation_task" where
  "task_of_input input model optimization_level max_synthesis_size =
     (case input of
        InputCircuit c \<Rightarrow>
          (if int (num_qudits c) > max_synthesis_size
              \<and> list_ex (\<lambda>g. int (gate_num_qudits g) > max_synthesis_size
                               \<and> \<not> is_measurement g) (gate_set c)
           then Inl ValueError
           else circuit_workflow c model optimization_level)
      | InputUnitary rs \<Rightarrow>
          (if int (length rs) > max_synthesis_size then Inl ValueError
           else circuit_workflow (from_unitary rs) model optimization_level)
      | InputState rs \<Rightarrow>
          (if int (length rs) > max_synthesis_size then Inl ValueError
           else stateprep_workflow rs model optimization_level)
      | InputOther \<Rightarrow> Inl TypeError)"

text \<open>Lines 140 to 174: the checks of the two integer arguments. The warning of line 135
  is not modelled; where its comparison raises on an \<^verbatim>\<open>optimization_level\<close> that is not
  an integer, it raises the \<^verbatim>\<open>TypeError\<close> that line 141 raises otherwise.\<close>

definition check_levels ::
  "compile_input \<Rightarrow> machine_model \<Rightarrow> int_arg \<Rightarrow> int_arg \<Rightarrow> py_error + compilation_task" where
  "check_levels input model optimization_level max_synthesis_size =
     (case optimization_level of
        NotInt \<Rightarrow> Inl TypeError
      | IntArg level \<Rightarrow>
          (if level < 1 \<or> level > 4 then Inl ValueError
           else
             (case max_synthesis_size of
                NotInt \<Rightarrow> Inl TypeError
              | IntArg mss \<Rightarrow>
                  (if mss < 2 then Inl ValueError
                   else task_of_input input model level mss))))"

text \<open>Lines 91 to 132, followed by the rest: everything \<^verbatim>\<open>compile\<close> does before it hands
  the task to the compiler.\<close>

definition build_task ::
  "compile_input \<Rightarrow> model_arg \<Rightarrow> int_arg \<Rightarrow> int_arg \<Rightarrow> py_error + compilation_task" where
  "build_task input model optimization_level max_synthesis_size =
     (if input = InputOther then Inl TypeError
      else if \<not> all_qubits (input_radixes input) then Inl ValueError
      else
        (case (case model of
                 ModelNone \<Rightarrow> Model (default_model (input_num_qudits input))
               | given \<Rightarrow> given) of
           Model m \<Rightarrow>
             (if model_num_qudits m < input_num_qudits input then Inl ValueError
              else if \<not> all_qubits (model_radixes m) then Inl ValueError
              else
                (let model_mq_gates =
                       length (filter (\<lambda>g. gate_num_qudits g \<ge> 2) (model_gate_set m))
                 in if model_mq_gates = 0 \<and> input_num_qudits input > 1 then Inl ValueError
                    else check_levels input m optimization_level max_synthesis_size))
         | _ \<Rightarrow> Inl TypeError))"

text \<open>\<^verbatim>\<open>compile\<close>: the passes run inside \<^verbatim>\<open>compiler.compile(task)\<close>, the argument
  \<open>compiler\<close>.\<close>

definition compile ::
  "compile_input \<Rightarrow> model_arg \<Rightarrow> int_arg \<Rightarrow> int_arg
     \<Rightarrow> (compilation_task \<Rightarrow> py_error + circuit) \<Rightarrow> py_error + circuit" where
  "compile input model optimization_level max_synthesis_size compiler =
     (case build_task input model optimization_level max_synthesis_size of
        Inl err \<Rightarrow> Inl err
      | Inr task \<Rightarrow> compiler task)"

text \<open>A circuit of four qubits whose only gate is a measurement of all four, and a compiler
  that returns the circuit of its task.\<close>

definition measured_circuit :: circuit where
  "measured_circuit = Circuit [2, 2, 2, 2] [Operation (MeasurementPlaceholder 4) [0, 1, 2, 3]]"

definition wide_circuit :: circuit where
  "wide_circuit = Circuit [2, 2, 2, 2] [Operation (Gate ''Wide'' 4) [0, 1, 2, 3]]"

definition identity_compiler :: "compilation_task \<Rightarrow> py_error + circuit" where
  "identity_compiler task = Inr (task_circuit task)"


text \<open>Models of two qutrits, of one qubit, and of two qubits without an entangling gate.\<close>

definition qutrit_model :: machine_model where
  "qutrit_model = (default_model 2)\<lparr>model_radixes := [3, 3]\<rparr>"

definition small_model :: machine_model where
  "small_model = default_model 1"

definition no_entangler_model :: machine_model where
  "no_entangler_model = (default_model 2)\<lparr>model_gate_set := [U3Gate]\<rparr>"

section \<open>Properties of the float model\<close>

lemma fge_iff: "fge a b \<longleftrightarrow> \<not> isnan a \<and> \<not> isnan b \<and> \<not> flt a b"
  by (cases a; cases b) simp_all

lemma flt_not_nan: "flt a b \<Longrightarrow> \<not> isnan a \<and> \<not> isnan b"
  by (cases a; cases b) simp_all

lemma flt_irrefl: "\<not> flt a a"
  by (cases a) simp_all

lemma flt_asym: "flt a b \<Longrightarrow> \<not> flt b a"
  by (cases a; cases b) simp_all

lemma flt_trans: "flt a b \<Longrightarrow> flt b c \<Longrightarrow> flt a c"
  by (cases a; cases b; cases c) simp_all

lemma fmul_nan_left: "isnan (fmul NaN b)"
  by simp

lemma fadd_nan_right: "isnan (fadd a NaN)"
  by (cases a) simp_all

lemma fadd_nan_left: "isnan (fadd NaN b)"
  by simp

lemma fsub_nan_left: "isnan (fsub NaN b)"
  by (simp add: fsub_def)

lemma flt_nan_left: "isnan a \<Longrightarrow> \<not> flt a b"
  by (cases a) simp_all

lemma isnan_iff: "isnan a \<longleftrightarrow> a = NaN"
  by (cases a) simp_all

lemma fsub_nan_flt: "isnan p \<Longrightarrow> \<not> flt (fsub p b) z"
  by (cases p) (simp_all add: fsub_def)

section \<open>The new-best rule\<close>

text \<open>
  Claim C1. \<^verbatim>\<open>check_new_best(layer, dist, best_layer, best_dist)\<close> is true exactly when
  \<^verbatim>\<open>dist < best_dist\<close> and (\<^verbatim>\<open>best_dist >= success_threshold\<close> or
  \<^verbatim>\<open>layer <= best_layer\<close>), or \<^verbatim>\<open>dist < success_threshold\<close> and
  \<^verbatim>\<open>layer < best_layer\<close>.
\<close>

theorem check_new_best_iff:
  "check_new_best self layer dst b_layer b_dist \<longleftrightarrow>
     (flt dst b_dist \<and> (fge b_dist (success_threshold self) \<or> layer \<le> b_layer))
     \<or> (flt dst (success_threshold self) \<and> layer < b_layer)"
  by (simp add: check_new_best_def Let_def)

section \<open>The leap condition\<close>

lemma fmul_NaN_right: "fmul a NaN = NaN"
  by (cases a) simp_all

lemma fadd_NaN_right: "fadd a NaN = NaN"
  by (cases a) simp_all

lemma exact_arith_nan_propagating: "nan_propagating exact_arith"
  by (auto simp: nan_propagating_def exact_arith_def isnan_iff fsub_def fmul_NaN_right
      fadd_NaN_right)

text \<open>
  Claim C2. With \<open>m\<close> and \<open>y_int\<close> the slope and intercept that the regression over the
  history gives, \<^verbatim>\<open>check_leap_condition\<close> computes
  \<^verbatim>\<open>predicted = m * new_layer + y_int\<close>, appends \<^verbatim>\<open>new_layer\<close> and \<^verbatim>\<open>best_dist\<close> to the
  history lists, returns false when the prediction is NaN, and otherwise returns true
  exactly when \<^verbatim>\<open>predicted - best_dist < 0\<close> and
  \<^verbatim>\<open>new_layer - last_prefix_layer >= min_prefix_size\<close>. The prediction is NaN, and the
  result false, whenever the slope or the intercept is NaN. This holds for every float
  arithmetic \<open>ar\<close>, the last part for one in which a NaN operand gives NaN.
\<close>

theorem check_leap_condition_spec:
  "lr b_layers b_dists = (m, y_int) \<longrightarrow>
     check_leap_condition self ar lr new_layer b_dist b_layers b_dists last_prefix =
       (\<not> isnan (float_add ar (float_mul ar m (float_of_int ar new_layer)) y_int)
          \<and> flt (float_sub ar
                   (float_add ar (float_mul ar m (float_of_int ar new_layer)) y_int) b_dist)
                (Fin 0)
          \<and> new_layer - last_prefix \<ge> min_prefix_size self,
        b_layers @ [new_layer], b_dists @ [b_dist])
     \<and> (nan_propagating ar \<and> (isnan m \<or> isnan y_int) \<longrightarrow>
          isnan (float_add ar (float_mul ar m (float_of_int ar new_layer)) y_int)
          \<and> \<not> fst (check_leap_condition self ar lr new_layer b_dist b_layers b_dists
                    last_prefix))"
proof (intro impI)
  assume lr: "lr b_layers b_dists = (m, y_int)"
  let ?p = "float_add ar (float_mul ar m (float_of_int ar new_layer)) y_int"
  have p: "predicted_best_of ar lr new_layer b_layers b_dists = ?p"
    by (simp add: predicted_best_of_def lr)
  have eq: "check_leap_condition self ar lr new_layer b_dist b_layers b_dists last_prefix =
       (\<not> isnan ?p \<and> flt (float_sub ar ?p b_dist) (Fin 0)
          \<and> new_layer - last_prefix \<ge> min_prefix_size self,
        b_layers @ [new_layer], b_dists @ [b_dist])"
    by (simp add: check_leap_condition_def p Let_def)
  have nan: "isnan ?p" if "nan_propagating ar" and "isnan m \<or> isnan y_int"
  proof -
    have "isnan (float_mul ar m (float_of_int ar new_layer)) \<or> isnan y_int"
      using that by (auto simp: nan_propagating_def)
    then show ?thesis using that(1) by (auto simp: nan_propagating_def)
  qed
  show "check_leap_condition self ar lr new_layer b_dist b_layers b_dists last_prefix =
       (\<not> isnan ?p \<and> flt (float_sub ar ?p b_dist) (Fin 0)
          \<and> new_layer - last_prefix \<ge> min_prefix_size self,
        b_layers @ [new_layer], b_dists @ [b_dist])
     \<and> (nan_propagating ar \<and> (isnan m \<or> isnan y_int) \<longrightarrow>
          isnan ?p
          \<and> \<not> fst (check_leap_condition self ar lr new_layer b_dist b_layers b_dists
                    last_prefix))"
    using eq nan by auto
qed

theorem check_leap_condition_spec_witness:
  "check_leap_condition
     \<lparr>success_threshold = Fin 0, max_layer = None, no_progress_layers_allowed = 10,
      store_partial_solutions = False, partials_per_depth = 25, min_prefix_size = 3\<rparr>
     exact_arith (\<lambda>ls ds. (Fin (- 1), Fin 8)) 4 (Fin 5) [0, 1] [Fin 8, Fin 7] 0
   = (True, [0, 1, 4], [Fin 8, Fin 7, Fin 5])
   \<and> \<not> fst (check_leap_condition
     \<lparr>success_threshold = Fin 0, max_layer = None, no_progress_layers_allowed = 10,
      store_partial_solutions = False, partials_per_depth = 25, min_prefix_size = 3\<rparr>
     exact_arith (\<lambda>ls ds. (NaN, NaN)) 4 (Fin 1) [0] [Fin 8] 0)"
  using check_leap_condition_spec
      [of "\<lambda>ls ds. (Fin (- 1), Fin 8)" "[0, 1]" "[Fin 8, Fin 7]" "Fin (- 1)" "Fin 8" _
          exact_arith 4 "Fin 5" 0]
    check_leap_condition_spec
      [of "\<lambda>ls ds. (NaN, NaN)" "[0]" "[Fin 8]" NaN NaN _ exact_arith 4 "Fin 1" 0]
    exact_arith_nan_propagating
  by (simp add: fsub_def exact_arith_def exact_of_int_def)

section \<open>How the steps of the search change the state\<close>

lemma prefix_freeze_fields:
  "best_dist (prefix_freeze self env layer c st) = best_dist st"
  "best_circ (prefix_freeze self env layer c st) = best_circ st"
  "best_layer (prefix_freeze self env layer c st) = best_layer st"
  "best_dists (prefix_freeze self env layer c st) = best_dists st"
  "best_layers (prefix_freeze self env layer c st) = best_layers st"
  "psols (prefix_freeze self env layer c st) = psols st"
  "warnings (prefix_freeze self env layer c st) = warnings st"
  "warned_layers (prefix_freeze self env layer c st) = warned_layers st"
  "last_prefix_layer (prefix_freeze self env layer c st) = layer + 1"
  by (simp_all add: prefix_freeze_def Let_def)

lemma prefix_freeze_frontier:
  "map snd (entries (frontier (prefix_freeze self env layer c st))) =
     (if below_max_layer self layer then [(c, layer + 1)] else [])"
  by (simp add: prefix_freeze_def Let_def frontier_clear_def frontier_add_def)

lemma store_partial_fields:
  "best_dist (store_partial self env layer c d st) = best_dist st"
  "best_circ (store_partial self env layer c d st) = best_circ st"
  "best_layer (store_partial self env layer c d st) = best_layer st"
  "best_dists (store_partial self env layer c d st) = best_dists st"
  "best_layers (store_partial self env layer c d st) = best_layers st"
  "frontier (store_partial self env layer c d st) = frontier st"
  "warnings (store_partial self env layer c d st) = warnings st"
  "warned_layers (store_partial self env layer c d st) = warned_layers st"
  "last_prefix_layer (store_partial self env layer c d st) = last_prefix_layer st"
  by (simp_all add: store_partial_def Let_def)

lemma update_best_unchanged:
  "\<not> check_new_best self (layer + 1) d (best_layer st) (best_dist st) \<Longrightarrow>
     update_best self env layer c d st = st"
  by (simp add: update_best_def)

lemma update_best_new:
  assumes "check_new_best self (layer + 1) d (best_layer st) (best_dist st)"
  shows "best_dist (update_best self env layer c d st) = d"
    and "best_circ (update_best self env layer c d st) = c"
    and "best_layer (update_best self env layer c d st) = layer + 1"
    and "psols (update_best self env layer c d st) = psols st"
    and "warnings (update_best self env layer c d st) = warnings st"
    and "warned_layers (update_best self env layer c d st) = warned_layers st"
    and "best_layers (update_best self env layer c d st) = best_layers st @ [layer + 1]"
    and "best_dists (update_best self env layer c d st) = best_dists st @ [d]"
  using assms
  by (simp_all add: update_best_def Let_def prefix_freeze_fields check_leap_condition_def
      split: prod.splits)

lemma update_best_psols: "psols (update_best self env layer c d st) = psols st"
  by (cases "check_new_best self (layer + 1) d (best_layer st) (best_dist st)")
    (simp_all add: update_best_new update_best_unchanged)

lemma update_best_warnings: "warnings (update_best self env layer c d st) = warnings st"
  by (cases "check_new_best self (layer + 1) d (best_layer st) (best_dist st)")
    (simp_all add: update_best_new update_best_unchanged)

text \<open>After the success test the second clause of the new-best rule is false.\<close>

lemma check_new_best_no_success:
  "\<not> flt d (success_threshold self) \<Longrightarrow>
     check_new_best self layer d b_layer b_dist =
       (flt d b_dist \<and> (fge b_dist (success_threshold self) \<or> layer \<le> b_layer))"
  by (simp add: check_new_best_def Let_def)

lemma update_best_dist:
  assumes "\<not> flt d (success_threshold self)"
  shows "best_dist (update_best self env layer c d st) = best_dist st
     \<or> (best_dist (update_best self env layer c d st) = d \<and> flt d (best_dist st))"
proof (cases "check_new_best self (layer + 1) d (best_layer st) (best_dist st)")
  case True
  then have "flt d (best_dist st)"
    using assms by (simp add: check_new_best_no_success)
  then show ?thesis using True by (simp add: update_best_new)
next
  case False
  then show ?thesis by (simp add: update_best_unchanged)
qed

lemma eval_circuit_Inr:
  "eval_circuit self env layer st c = Inr st' \<Longrightarrow> \<not> flt (calc_cost env c) (success_threshold self)"
  by (auto simp: eval_circuit_def Let_def split: if_splits)

lemma eval_circuit_best_dist:
  "eval_circuit self env layer st c = Inr st' \<Longrightarrow>
     best_dist st' = best_dist (update_best self env layer c (calc_cost env c) st)"
  by (auto simp: eval_circuit_def Let_def store_partial_fields split: if_splits)

lemma eval_circuit_non_increasing:
  assumes "eval_circuit self env layer st c = Inr st'"
  shows "best_dist st' = best_dist st \<or> flt (best_dist st') (best_dist st)"
  using update_best_dist [OF eval_circuit_Inr [OF assms], of env layer c st]
    eval_circuit_best_dist [OF assms] by auto

lemma eval_circuits_non_increasing:
  "eval_circuits self env layer st cs = Inr st' \<Longrightarrow>
     best_dist st' = best_dist st \<or> flt (best_dist st') (best_dist st)"
proof (induction cs arbitrary: st)
  case Nil
  then show ?case by simp
next
  case (Cons c cs)
  then obtain st1 where 1: "eval_circuit self env layer st c = Inr st1"
    and 2: "eval_circuits self env layer st1 cs = Inr st'"
    by (auto split: sum.splits)
  from Cons.IH [OF 2] eval_circuit_non_increasing [OF 1] show ?case
    using flt_trans by metis
qed

lemma no_progress_check_fields:
  assumes "no_progress_check self layer st = Inr st'"
  shows "best_dist st' = best_dist st" and "frontier st' = frontier st"
    and "best_circ st' = best_circ st" and "best_layer st' = best_layer st"
    and "psols st' = psols st" and "last_prefix_layer st' = last_prefix_layer st"
  using assms by (auto simp: no_progress_check_def Let_def split: if_splits)

lemma loop_body_non_increasing:
  assumes "loop_body self env st = Inr st'"
  shows "best_dist st' = best_dist st \<or> flt (best_dist st') (best_dist st)"
proof -
  from assms obtain tc layer f where
    pop: "frontier_pop (frontier st) = Some ((tc, layer), f)"
    by (auto simp: loop_body_def split: option.splits)
  show ?thesis
  proof (cases "length (gen_successors env tc) = 0")
    case True
    with assms pop show ?thesis by (auto simp: loop_body_def)
  next
    case False
    with assms pop obtain st1 where
      1: "eval_circuits self env layer (st\<lparr>frontier := f\<rparr>)
            (map (instantiate env) (gen_successors env tc)) = Inr st1"
      and 2: "no_progress_check self layer st1 = Inr st'"
      by (auto simp: loop_body_def Let_def split: sum.splits)
    from eval_circuits_non_increasing [OF 1] no_progress_check_fields(1) [OF 2]
    show ?thesis by simp
  qed
qed

lemma run_loop_non_increasing:
  "run_loop self env k st = Inr st' \<Longrightarrow>
     best_dist st' = best_dist st \<or> flt (best_dist st') (best_dist st)"
proof (induction k arbitrary: st)
  case 0
  then show ?case by simp
next
  case (Suc k)
  then obtain st1 where 1: "loop_body self env st = Inr st1"
    and 2: "run_loop self env k st1 = Inr st'"
    by (auto split: if_splits sum.splits)
  from Suc.IH [OF 2] loop_body_non_increasing [OF 1] show ?case
    using flt_trans by metis
qed

lemma eval_circuit_Inl:
  "flt (calc_cost env c) (success_threshold self) \<Longrightarrow>
     eval_circuit self env layer st c = Inl (Returned c (stored_psols self st) (warnings st))"
  by (simp add: eval_circuit_def Let_def)

lemma eval_circuit_total:
  "\<not> flt (calc_cost env c) (success_threshold self) \<Longrightarrow>
     \<exists>st'. eval_circuit self env layer st c = Inr st'"
  by (simp add: eval_circuit_def Let_def)

lemma update_best_freeze:
  assumes "freeze_condition self env layer st c"
  shows "update_best self env layer c (calc_cost env c) st =
     prefix_freeze self env layer c
       (st\<lparr>best_dist := calc_cost env c, best_circ := c, best_layer := layer + 1,
           best_layers := best_layers st @ [layer + 1],
           best_dists := best_dists st @ [calc_cost env c]\<rparr>)"
proof -
  let ?d = "calc_cost env c"
  from assms have nb: "check_new_best self (layer + 1) ?d (best_layer st) (best_dist st)"
    and leap: "fst (check_leap_condition self (arith env) (linregress env) (layer + 1) ?d
                  (best_layers st) (best_dists st) (last_prefix_layer st))"
    by (simp_all add: freeze_condition_def Let_def)
  obtain b ls ds where cl: "check_leap_condition self (arith env) (linregress env) (layer + 1) ?d
                  (best_layers st) (best_dists st) (last_prefix_layer st) = (b, ls, ds)"
    by (cases "check_leap_condition self (arith env) (linregress env) (layer + 1) ?d
                  (best_layers st) (best_dists st) (last_prefix_layer st)") auto
  have "ls = best_layers st @ [layer + 1]" "ds = best_dists st @ [?d]"
    using cl by (auto simp: check_leap_condition_def Let_def split: if_splits)
  moreover have b using leap cl by simp
  ultimately show ?thesis
    using nb cl by (simp add: update_best_def Let_def)
qed

lemma update_best_frontier_freeze:
  assumes "freeze_condition self env layer st c"
  shows "map snd (entries (frontier (update_best self env layer c (calc_cost env c) st))) =
     (if below_max_layer self layer then [(c, layer + 1)] else [])"
    and "last_prefix_layer (update_best self env layer c (calc_cost env c) st) = layer + 1"
  by (simp_all add: update_best_freeze [OF assms] prefix_freeze_frontier prefix_freeze_fields)

lemma eval_circuit_frontier:
  assumes "eval_circuit self env layer st c = Inr st'"
  shows "map snd (entries (frontier st')) =
     map snd (entries (frontier (update_best self env layer c (calc_cost env c) st)))
       @ (if below_max_layer self layer then [(c, layer + 1)] else [])"
    and "last_prefix_layer st' =
      last_prefix_layer (update_best self env layer c (calc_cost env c) st)"
  using assms
  by (auto simp: eval_circuit_def Let_def store_partial_fields frontier_add_def
      split: if_splits)

subsection \<open>The depths in the frontier\<close>

lemma layers_at_least_map:
  "layers_at_least l f = list_all (\<lambda>p. l \<le> snd p) (map snd (entries f))"
  by (simp add: layers_at_least_def list_all_iff)

lemma layers_at_least_add:
  "layers_at_least l (frontier_add h f c d) \<longleftrightarrow> layers_at_least l f \<and> l \<le> d"
  by (simp add: layers_at_least_def frontier_add_def)

lemma layers_at_least_prefix_freeze:
  "l \<le> layer + 1 \<Longrightarrow> layers_at_least l (frontier (prefix_freeze self env layer c st))"
  by (simp add: layers_at_least_map prefix_freeze_frontier)

lemma min_entry_mem: "min_entry e es \<in> set (e # es)"
proof (induction es arbitrary: e)
  case Nil
  then show ?case by simp
next
  case (Cons x xs)
  have "min_entry (if key_less (fst x) (fst e) then x else e) xs
      \<in> set ((if key_less (fst x) (fst e) then x else e) # xs)"
    by (rule Cons.IH)
  then show ?case by (auto split: if_splits)
qed

lemma frontier_pop_mem:
  assumes "frontier_pop f = Some ((c, d), f')"
  shows "\<exists>k. (k, (c, d)) \<in> set (entries f)" and "set (entries f') \<subseteq> set (entries f)"
proof -
  from assms obtain e es where es: "entries f = e # es"
    and m: "snd (min_entry e es) = (c, d)"
    and f': "f' = f\<lparr>entries := remove1 (min_entry e es) (entries f)\<rparr>"
    by (auto simp: frontier_pop_def Let_def split: list.splits)
  have "min_entry e es \<in> set (entries f)"
    using min_entry_mem [of e es] es by simp
  then show "\<exists>k. (k, (c, d)) \<in> set (entries f)"
    using m by (metis prod.collapse)
  show "set (entries f') \<subseteq> set (entries f)"
    using f' set_remove1_subset [of "min_entry e es" "entries f"] by simp
qed

lemma frontier_pop_at_least:
  assumes "frontier_pop f = Some ((c, d), f')" and "layers_at_least l f"
  shows "l \<le> d" and "layers_at_least l f'"
  using frontier_pop_mem [OF assms(1)] assms(2)
  by (auto simp: layers_at_least_def list_all_iff)

lemma update_best_at_least:
  assumes "layers_at_least l (frontier st)" and "l \<le> layer + 1"
  shows "layers_at_least l (frontier (update_best self env layer c d st))"
proof (cases "check_new_best self (layer + 1) d (best_layer st) (best_dist st)")
  case False
  then show ?thesis using assms by (simp add: update_best_unchanged)
next
  case True
  obtain b ls ds where cl: "check_leap_condition self (arith env) (linregress env) (layer + 1) d
        (best_layers st) (best_dists st) (last_prefix_layer st) = (b, ls, ds)"
    by (cases "check_leap_condition self (arith env) (linregress env) (layer + 1) d
        (best_layers st) (best_dists st) (last_prefix_layer st)") auto
  show ?thesis
    using True cl assms
    by (cases b) (simp_all add: update_best_def Let_def layers_at_least_prefix_freeze)
qed

lemma eval_circuit_at_least:
  assumes "eval_circuit self env layer st c = Inr st'"
    and "layers_at_least l (frontier st)" and "l \<le> layer + 1"
  shows "layers_at_least l (frontier st')"
proof -
  have "layers_at_least l (frontier (update_best self env layer c (calc_cost env c) st))"
    using assms(2,3) by (rule update_best_at_least)
  then have "list_all (\<lambda>p. l \<le> snd p) (map snd (entries (frontier st')))"
    using eval_circuit_frontier(1) [OF assms(1)] assms(3)
    by (simp add: layers_at_least_map)
  then show ?thesis by (simp add: layers_at_least_map)
qed

lemma eval_circuits_at_least:
  "eval_circuits self env layer st cs = Inr st' \<Longrightarrow> layers_at_least l (frontier st)
     \<Longrightarrow> l \<le> layer + 1 \<Longrightarrow> layers_at_least l (frontier st')"
proof (induction cs arbitrary: st)
  case Nil
  then show ?case by simp
next
  case (Cons c cs)
  then obtain st1 where 1: "eval_circuit self env layer st c = Inr st1"
    and 2: "eval_circuits self env layer st1 cs = Inr st'"
    by (auto split: sum.splits)
  have "layers_at_least l (frontier st1)"
    using 1 Cons.prems(2,3) by (rule eval_circuit_at_least)
  then show ?case using Cons.IH [OF 2] Cons.prems(3) by simp
qed

lemma loop_body_at_least:
  assumes "loop_body self env st = Inr st'" and "layers_at_least l (frontier st)"
  shows "layers_at_least l (frontier st')"
proof -
  from assms(1) obtain tc layer f where
    pop: "frontier_pop (frontier st) = Some ((tc, layer), f)"
    by (auto simp: loop_body_def split: option.splits)
  have l: "l \<le> layer" and f: "layers_at_least l f"
    using frontier_pop_at_least [OF pop assms(2)] by simp_all
  show ?thesis
  proof (cases "length (gen_successors env tc) = 0")
    case True
    with assms(1) pop f show ?thesis by (auto simp: loop_body_def)
  next
    case False
    with assms(1) pop obtain st1 where
      1: "eval_circuits self env layer (st\<lparr>frontier := f\<rparr>)
            (map (instantiate env) (gen_successors env tc)) = Inr st1"
      and 2: "no_progress_check self layer st1 = Inr st'"
      by (auto simp: loop_body_def Let_def split: sum.splits)
    have "layers_at_least l (frontier st1)"
      using eval_circuits_at_least [OF 1] f l by simp
    then show ?thesis using no_progress_check_fields(2) [OF 2] by simp
  qed
qed

lemma run_loop_at_least:
  "run_loop self env k st = Inr st' \<Longrightarrow> layers_at_least l (frontier st)
     \<Longrightarrow> layers_at_least l (frontier st')"
proof (induction k arbitrary: st)
  case 0
  then show ?case by simp
next
  case (Suc k)
  then obtain st1 where 1: "loop_body self env st = Inr st1"
    and 2: "run_loop self env k st1 = Inr st'"
    by (auto split: if_splits sum.splits)
  have "layers_at_least l (frontier st1)"
    using 1 Suc.prems(2) by (rule loop_body_at_least)
  then show ?case using Suc.IH [OF 2] by simp
qed

lemma freeze_at_least:
  assumes "freeze_condition self env layer st c"
    and "eval_circuit self env layer st c = Inr st1"
  shows "layers_at_least (layer + 1) (frontier st1)"
    and "last_prefix_layer st1 = layer + 1"
  using eval_circuit_frontier [OF assms(2)] update_best_frontier_freeze [OF assms(1)]
  by (simp_all add: layers_at_least_map)

subsection \<open>The end of the loop\<close>





subsection \<open>The partial solutions\<close>

lemma insert_by_cost_length: "length (insert_by_cost x ys) = Suc (length ys)"
  by (induction ys) simp_all

lemma insert_by_cost_set: "set (insert_by_cost x ys) = insert x (set ys)"
  by (induction ys) auto

lemma insertion_sort_length: "length (insertion_sort_by_cost xs) = length xs"
  by (induction xs) (simp_all add: insertion_sort_by_cost_def insert_by_cost_length)

lemma insertion_sort_set: "set (insertion_sort_by_cost xs) = set xs"
  by (induction xs) (simp_all add: insertion_sort_by_cost_def insert_by_cost_set)

lemma insert_by_cost_mset: "mset (insert_by_cost x ys) = add_mset x (mset ys)"
  by (induction ys) simp_all

lemma insertion_sort_mset: "mset (insertion_sort_by_cost xs) = mset xs"
  by (induction xs) (simp_all add: insertion_sort_by_cost_def insert_by_cost_mset)

lemma insertion_sort_no_descent: "no_descent xs \<Longrightarrow> insertion_sort_by_cost xs = xs"
proof (induction xs)
  case Nil
  then show ?case by (simp add: insertion_sort_by_cost_def)
next
  case (Cons x xs)
  then have xs: "insertion_sort_by_cost xs = xs"
    by (cases xs) (simp_all add: insertion_sort_by_cost_def)
  have "insert_by_cost x xs = x # xs"
    using Cons.prems by (cases xs) simp_all
  then show ?case
    using xs by (simp add: insertion_sort_by_cost_def)
qed

lemma not_flt_trans:
  "\<not> isnan b \<Longrightarrow> \<not> flt b a \<Longrightarrow> \<not> flt c b \<Longrightarrow> \<not> flt c a"
  by (cases a; cases b; cases c) simp_all

lemma not_flt_total: "\<not> isnan a \<Longrightarrow> \<not> isnan b \<Longrightarrow> flt a b \<Longrightarrow> \<not> flt b a"
  by (cases a; cases b) simp_all

lemma insert_by_cost_ascending:
  assumes "ascending ys" and "\<not> isnan (snd x)" and "\<forall>y\<in>set ys. \<not> isnan (snd y)"
  shows "ascending (insert_by_cost x ys)"
  using assms
proof (induction ys)
  case Nil
  then show ?case by simp
next
  case (Cons y ys)
  show ?case
  proof (cases "flt (snd y) (snd x)")
    case True
    have "ascending (insert_by_cost x ys)"
      using Cons by simp
    moreover have "\<forall>z\<in>set (insert_by_cost x ys). \<not> flt (snd z) (snd y)"
      using Cons.prems True by (auto simp: insert_by_cost_set dest: flt_asym)
    ultimately show ?thesis using True by simp
  next
    case False
    have "\<forall>z\<in>set ys. \<not> flt (snd z) (snd x)"
    proof
      fix z assume "z \<in> set ys"
      then have "\<not> flt (snd z) (snd y)" using Cons.prems(1) by simp
      with False show "\<not> flt (snd z) (snd x)"
        using not_flt_trans [of "snd y" "snd x" "snd z"] Cons.prems(3) by simp
    qed
    then show ?thesis using False Cons.prems(1) by simp
  qed
qed

lemma insertion_sort_ascending:
  "\<forall>x\<in>set xs. \<not> isnan (snd x) \<Longrightarrow> ascending (insertion_sort_by_cost xs)"
proof (induction xs)
  case Nil
  then show ?case by (simp add: insertion_sort_by_cost_def)
next
  case (Cons x xs)
  have "ascending (insert_by_cost x (insertion_sort_by_cost xs))"
    using Cons by (intro insert_by_cost_ascending) (simp_all add: insertion_sort_set)
  then show ?case by (simp add: insertion_sort_by_cost_def)
qed

lemma insertion_sort_contract: "sort_contract insertion_sort_by_cost"
  by (simp add: sort_contract_def insertion_sort_mset insertion_sort_ascending
      insertion_sort_no_descent)

lemma sort_contract_length: "sort_contract srt \<Longrightarrow> length (srt xs) = length xs"
  using mset_eq_length [of "srt xs" xs] by (simp add: sort_contract_def)

lemma sort_contract_set: "sort_contract srt \<Longrightarrow> set (srt xs) = set xs"
  using mset_eq_setD [of "srt xs" xs] by (simp add: sort_contract_def)

lemma ascending_last:
  "ascending xs \<Longrightarrow> x \<in> set xs \<Longrightarrow> \<not> flt (snd (last xs)) (snd x)"
proof (induction xs)
  case Nil
  then show ?case by simp
next
  case (Cons y ys)
  show ?case
  proof (cases "ys = []")
    case True
    with Cons.prems show ?thesis by (simp add: flt_irrefl)
  next
    case False
    then have l: "last (y # ys) = last ys" by simp
    show ?thesis
    proof (cases "x = y")
      case True
      have "last ys \<in> set ys" using False by simp
      then show ?thesis using Cons.prems(1) True l by simp
    next
      case False
      then show ?thesis using Cons l by simp
    qed
  qed
qed

lemma sort_contract_last_worst:
  assumes "sort_contract srt" and "\<forall>x\<in>set xs. \<not> isnan (snd x)" and "x \<in> set xs"
  shows "\<not> flt (snd (last (srt xs))) (snd x)"
proof -
  have "ascending (srt xs)"
    using assms(1,2) by (simp add: sort_contract_def)
  then show ?thesis
    using ascending_last [of "srt xs" x] assms(3) sort_contract_set [OF assms(1), of xs]
    by simp
qed

lemma eval_circuit_psols:
  assumes "eval_circuit self env layer st c = Inr st'"
  shows "psols st' =
     (if store_partial_solutions self
      then (psols st)(layer \<mapsto>
             (let bucket = (case psols st layer of None \<Rightarrow> [] | Some b \<Rightarrow> b)
                             @ [(c, calc_cost env c)]
              in if int (length bucket) > partials_per_depth self
                 then butlast (list_sort env bucket) else bucket))
      else psols st)"
  using assms
  by (auto simp: eval_circuit_def Let_def store_partial_def update_best_psols
      split: if_splits)

lemma eval_circuit_bounded:
  assumes r: "eval_circuit self env layer st c = Inr st'"
    and n: "0 \<le> partials_per_depth self"
    and b: "buckets_bounded (partials_per_depth self) (psols st)"
    and sc: "sort_contract (list_sort env)"
  shows "buckets_bounded (partials_per_depth self) (psols st')"
proof (cases "store_partial_solutions self")
  case False
  then show ?thesis using eval_circuit_psols [OF r] b by simp
next
  case True
  let ?b0 = "case psols st layer of None \<Rightarrow> [] | Some b \<Rightarrow> b"
  let ?b1 = "?b0 @ [(c, calc_cost env c)]"
  let ?b2 = "if int (length ?b1) > partials_per_depth self
             then butlast (list_sort env ?b1) else ?b1"
  have b0: "int (length ?b0) \<le> partials_per_depth self"
    using n b by (auto simp: buckets_bounded_def split: option.splits)
  have "int (length ?b2) \<le> partials_per_depth self"
    using b0 by (simp add: sort_contract_length [OF sc])
  moreover have "psols st' = (psols st)(layer \<mapsto> ?b2)"
    using eval_circuit_psols [OF r] True by (simp add: Let_def)
  ultimately show ?thesis
    using b by (auto simp: buckets_bounded_def)
qed

lemma eval_circuits_bounded:
  "eval_circuits self env layer st cs = Inr st' \<Longrightarrow> 0 \<le> partials_per_depth self \<Longrightarrow>
     buckets_bounded (partials_per_depth self) (psols st) \<Longrightarrow>
     sort_contract (list_sort env) \<Longrightarrow>
     buckets_bounded (partials_per_depth self) (psols st')"
proof (induction cs arbitrary: st)
  case Nil
  then show ?case by simp
next
  case (Cons c cs)
  then obtain st1 where 1: "eval_circuit self env layer st c = Inr st1"
    and 2: "eval_circuits self env layer st1 cs = Inr st'"
    by (auto split: sum.splits)
  have "buckets_bounded (partials_per_depth self) (psols st1)"
    using 1 Cons.prems(2,3,4) by (rule eval_circuit_bounded)
  then show ?case using Cons.IH [OF 2] Cons.prems(2,4) by simp
qed

lemma loop_body_bounded:
  assumes "loop_body self env st = Inr st'" and "0 \<le> partials_per_depth self"
    and "buckets_bounded (partials_per_depth self) (psols st)"
    and "sort_contract (list_sort env)"
  shows "buckets_bounded (partials_per_depth self) (psols st')"
proof -
  from assms(1) obtain tc layer f where
    pop: "frontier_pop (frontier st) = Some ((tc, layer), f)"
    by (auto simp: loop_body_def split: option.splits)
  show ?thesis
  proof (cases "length (gen_successors env tc) = 0")
    case True
    with assms(1,3) pop show ?thesis by (auto simp: loop_body_def)
  next
    case False
    with assms(1) pop obtain st1 where
      1: "eval_circuits self env layer (st\<lparr>frontier := f\<rparr>)
            (map (instantiate env) (gen_successors env tc)) = Inr st1"
      and 2: "no_progress_check self layer st1 = Inr st'"
      by (auto simp: loop_body_def Let_def split: sum.splits)
    have "buckets_bounded (partials_per_depth self) (psols st1)"
      using eval_circuits_bounded [OF 1 assms(2) _ assms(4)] assms(3) by simp
    then show ?thesis using no_progress_check_fields(5) [OF 2] by simp
  qed
qed

lemma run_loop_bounded:
  "run_loop self env k st = Inr st' \<Longrightarrow> 0 \<le> partials_per_depth self \<Longrightarrow>
     buckets_bounded (partials_per_depth self) (psols st) \<Longrightarrow>
     sort_contract (list_sort env) \<Longrightarrow>
     buckets_bounded (partials_per_depth self) (psols st')"
proof (induction k arbitrary: st)
  case 0
  then show ?case by simp
next
  case (Suc k)
  then obtain st1 where 1: "loop_body self env st = Inr st1"
    and 2: "run_loop self env k st1 = Inr st'"
    by (auto split: if_splits sum.splits)
  have "buckets_bounded (partials_per_depth self) (psols st1)"
    using 1 Suc.prems(2,3,4) by (rule loop_body_bounded)
  then show ?case using Suc.IH [OF 2] Suc.prems(2,4) by simp
qed

lemma initial_state_bounded: "buckets_bounded n (psols (initial_state env))"
  by (simp add: buckets_bounded_def initial_state_def Let_def)


section \<open>The concrete search, step by step\<close>

lemma example_initial: "initial_state example_env = example_state0"
  by (simp add: initial_state_def example_env_def example_state0_def frontier_add_def
      frontier_new_def Let_def)

lemma example_pop0:
  "frontier_pop (frontier example_state0) = Some ((0, 0), \<lparr>entries = [], counter = 1\<rparr>)"
  by (simp add: example_state0_def frontier_pop_def)

lemma example_freeze: "freeze_condition example_pass example_env 0 example_popped 2"
  by (simp add: freeze_condition_def example_pass_def example_env_def example_state0_def
      example_popped_def Let_def check_new_best_def check_leap_condition_def
      predicted_best_of_def exact_arith_def exact_of_int_def fsub_def)

lemma example_eval1:
  "eval_circuit example_pass example_env 0 example_popped 2 = Inr example_state1"
  by (simp add: example_state1_def example_pass_def example_env_def example_state0_def
      example_popped_def Let_def eval_circuit_def update_best_def check_new_best_def
      check_leap_condition_def predicted_best_of_def exact_arith_def exact_of_int_def fsub_def
      prefix_freeze_def below_max_layer_def frontier_clear_def store_partial_def
      insertion_sort_by_cost_def frontier_add_def)

lemma example_eval2:
  "eval_circuit example_pass example_env 0 example_state1 3 = Inr example_state2"
  by (simp add: example_state1_def example_state2_def example_pass_def example_env_def
      Let_def eval_circuit_def update_best_def check_new_best_def
      check_leap_condition_def predicted_best_of_def exact_arith_def exact_of_int_def fsub_def
      below_max_layer_def store_partial_def insertion_sort_by_cost_def frontier_add_def)

lemma example_evals:
  "eval_circuits example_pass example_env 0 example_popped [2, 3] = Inr example_state2"
  by (simp add: example_eval1 example_eval2)

lemma example_no_progress:
  "no_progress_check example_pass 0 example_state2 = Inr example_state2"
  by (simp add: no_progress_check_def example_pass_def example_state2_def)

lemma example_body0: "loop_body example_pass example_env example_state0 = Inr example_state2"
proof -
  have "gen_successors example_env 0 = [2, 3]" "instantiate example_env = (\<lambda>c. c)"
    by (simp_all add: example_env_def)
  moreover have "example_state0\<lparr>frontier := \<lparr>entries = [], counter = 1\<rparr>\<rparr> = example_popped"
    by (simp add: example_popped_def)
  ultimately show ?thesis
    by (simp add: loop_body_def example_pop0 example_eval1 example_eval2 example_no_progress)
qed

lemma example_body2: "loop_body example_pass example_env example_state2 = Inr example_state3"
  by (simp add: loop_body_def frontier_pop_def key_less_def example_state2_def
      example_state3_def example_env_def)

lemma example_body3: "loop_body example_pass example_env example_state3 = Inr example_state4"
  by (simp add: loop_body_def frontier_pop_def key_less_def example_state2_def
      example_state3_def example_state4_def example_env_def)

lemma example_body4: "loop_body example_pass example_env example_state4 = Inr example_state5"
  by (simp add: loop_body_def frontier_pop_def key_less_def example_state2_def
      example_state4_def example_state5_def example_env_def)

lemma example_nonempty:
  "\<not> frontier_empty (frontier example_state0)" "\<not> frontier_empty (frontier example_state2)"
  "\<not> frontier_empty (frontier example_state3)" "\<not> frontier_empty (frontier example_state4)"
  "frontier_empty (frontier example_state5)"
  by (simp_all add: frontier_empty_def example_state0_def example_state2_def
      example_state3_def example_state4_def example_state5_def)

lemma example_run1: "run_loop example_pass example_env 1 example_state0 = Inr example_state2"
  using example_body0 example_nonempty by simp

lemma example_run3: "run_loop example_pass example_env 3 example_state2 = Inr example_state5"
  using example_body2 example_body3 example_body4 example_nonempty
  by (simp add: numeral_3_eq_3)

lemma example_run4: "run_loop example_pass example_env 4 example_state0 = Inr example_state5"
  using example_body0 example_body2 example_body3 example_body4 example_nonempty
  by (simp add: eval_nat_numeral)

lemma example_run_2_3: "run_loop example_pass example_env 1 example_state2 = Inr example_state3"
  using example_body2 example_nonempty by simp

lemma example_pop3:
  "frontier_pop (frontier example_state3)
     = Some ((2, 1), \<lparr>entries = [((3, 3), (3, 1))], counter = 4\<rparr>)"
  by (simp add: frontier_pop_def key_less_def example_state2_def example_state3_def)

lemma sort_contract_butlast:
  assumes "sort_contract srt" and "xs \<noteq> []"
  shows "add_mset (last (srt xs)) (mset (butlast (srt xs))) = mset xs"
proof -
  have "srt xs \<noteq> []"
    using assms sort_contract_length [OF assms(1), of xs] by auto
  then have "mset (butlast (srt xs) @ [last (srt xs)]) = mset (srt xs)"
    by simp
  then show ?thesis
    using assms(1) by (simp add: sort_contract_def)
qed

lemma sort_contract_nan_bucket:
  "sort_contract srt \<Longrightarrow>
     srt [(2 :: nat, Fin 5), (3, NaN), (9, Fin 1)] = [(2, Fin 5), (3, NaN), (9, Fin 1)]"
  by (simp add: sort_contract_def)

lemma nan_bucket_eval2:
  "\<exists>st. eval_circuits two_partials_pass nan_bucket_env 0 example_popped [2, 3] = Inr st
        \<and> psols st = [0 \<mapsto> [(2, Fin 5), (3, NaN)]]"
proof -
  have c: "calc_cost nan_bucket_env 2 = Fin 5" "calc_cost nan_bucket_env 3 = NaN"
    and p: "store_partial_solutions two_partials_pass"
      "partials_per_depth two_partials_pass = 2"
      "success_threshold two_partials_pass = Fin 1"
    by (simp_all add: nan_bucket_env_def two_partials_pass_def example_pass_def)
  obtain st1 where 1: "eval_circuit two_partials_pass nan_bucket_env 0 example_popped 2 = Inr st1"
    using eval_circuit_total [of nan_bucket_env 2 two_partials_pass 0 example_popped]
    by (auto simp: c p)
  obtain st2 where 2: "eval_circuit two_partials_pass nan_bucket_env 0 st1 3 = Inr st2"
    using eval_circuit_total [of nan_bucket_env 3 two_partials_pass 0 st1]
    by (auto simp: c p)
  have "psols st1 = [0 \<mapsto> [(2, Fin 5)]]"
    using eval_circuit_psols [OF 1]
    by (simp add: c p example_popped_def example_state0_def)
  then have "psols st2 = [0 \<mapsto> [(2, Fin 5), (3, NaN)]]"
    using eval_circuit_psols [OF 2] by (simp add: c p)
  then show ?thesis using 1 2 by simp
qed

lemma nan_bucket_eval3:
  "\<exists>st. eval_circuits two_partials_pass nan_bucket_env 0 example_popped [2, 3, 9] = Inr st
        \<and> psols st = [0 \<mapsto> [(2, Fin 5), (3, NaN)]]"
proof -
  have c: "calc_cost nan_bucket_env 9 = Fin 1"
    and s: "list_sort nan_bucket_env = insertion_sort_by_cost"
    and p: "store_partial_solutions two_partials_pass"
      "partials_per_depth two_partials_pass = 2"
      "success_threshold two_partials_pass = Fin 1"
    by (simp_all add: nan_bucket_env_def two_partials_pass_def example_pass_def example_env_def)
  obtain st2 where 2: "eval_circuits two_partials_pass nan_bucket_env 0 example_popped [2, 3] = Inr st2"
    and ps: "psols st2 = [0 \<mapsto> [(2, Fin 5), (3, NaN)]]"
    using nan_bucket_eval2 by blast
  obtain st3 where 3: "eval_circuit two_partials_pass nan_bucket_env 0 st2 9 = Inr st3"
    using eval_circuit_total [of nan_bucket_env 9 two_partials_pass 0 st2]
    by (auto simp: c p)
  have "psols st3 = [0 \<mapsto> [(2, Fin 5), (3, NaN)]]"
    using eval_circuit_psols [OF 3]
    by (simp add: c p s ps sort_contract_nan_bucket [OF insertion_sort_contract])
  moreover have "eval_circuits two_partials_pass nan_bucket_env 0 example_popped [2, 3, 9] = Inr st3"
    using 2 3 by (auto split: sum.splits)
  ultimately show ?thesis by simp
qed

lemma below_max_layer_iff:
  "below_max_layer self layer
     = (max_layer self = None \<or> (\<exists>ml. max_layer self = Some ml \<and> layer + 1 < ml))"
  by (simp add: below_max_layer_def split: option.splits)

lemma example_freeze_unbounded:
  "freeze_condition unbounded_pass example_env 0 example_popped 2"
  by (simp add: freeze_condition_def unbounded_pass_def example_pass_def example_env_def
      example_state0_def example_popped_def Let_def check_new_best_def
      check_leap_condition_def predicted_best_of_def exact_arith_def exact_of_int_def fsub_def)

lemma example_freeze_one_layer:
  "freeze_condition one_layer_pass example_env 0 example_popped 2"
  by (simp add: freeze_condition_def one_layer_pass_def example_pass_def example_env_def
      example_state0_def example_popped_def Let_def check_new_best_def
      check_leap_condition_def predicted_best_of_def exact_arith_def exact_of_int_def fsub_def)

section \<open>The best distance never increases\<close>

text \<open>
  Claim C5. Over one \<^verbatim>\<open>synthesize\<close> call the values of \<^verbatim>\<open>best_dist\<close> are non-increasing:
  the evaluation of a successor leaves \<^verbatim>\<open>best_dist\<close> as it is or assigns a smaller value,
  and so does any number of iterations of the main loop from any state reached from the
  initial one.
\<close>

theorem best_dist_non_increasing:
  "(eval_circuit self env layer st c = Inr st'
      \<longrightarrow> best_dist st' = best_dist st \<or> flt (best_dist st') (best_dist st))
   \<and> (run_loop self env j (initial_state env) = Inr st1 \<and> run_loop self env k st1 = Inr st2
      \<longrightarrow> best_dist st2 = best_dist st1 \<or> flt (best_dist st2) (best_dist st1))"
  using eval_circuit_non_increasing [of self env layer st c st']
    run_loop_non_increasing [of self env k st1 st2]
  by blast

theorem best_dist_non_increasing_witness:
  "flt (best_dist example_state1) (best_dist example_popped)
   \<and> flt (best_dist example_state5) (best_dist example_state0)"
  using best_dist_non_increasing
      [of example_pass example_env 0 example_popped 2 example_state1 0 example_state0 4
          example_state5]
    example_eval1 example_run4 example_initial
  by (simp add: example_state0_def example_state1_def example_state2_def example_state5_def
      example_popped_def)

section \<open>The new-best rule inside \<^verbatim>\<open>synthesize\<close>\<close>

text \<open>
  Claim C10, as stated, fails when the cost is NaN: the successor does not end the search,
  \<^verbatim>\<open>check_new_best\<close> is called with it, and \<^verbatim>\<open>dist >= success_threshold\<close> is false.
\<close>

theorem new_best_invoked_with_nan:
  "\<not> isl (eval_circuit example_pass nan_cost_env 0 example_popped 2)
   \<and> \<not> flt (calc_cost nan_cost_env 2) (success_threshold example_pass)
   \<and> \<not> fge (calc_cost nan_cost_env 2) (success_threshold example_pass)"
  by (simp add: eval_circuit_def nan_cost_env_def example_env_def example_pass_def Let_def)

text \<open>
  Claim C10, amended. A successor with \<^verbatim>\<open>dist < success_threshold\<close> ends the call before
  \<^verbatim>\<open>check_new_best\<close> is reached. So \<^verbatim>\<open>check_new_best\<close> is only called with a \<^verbatim>\<open>dist\<close>
  for which \<^verbatim>\<open>dist < success_threshold\<close> is false (which is
  \<^verbatim>\<open>dist >= success_threshold\<close> when neither is NaN); its second clause never holds
  there, every accepted update assigns a \<^verbatim>\<open>dist\<close> strictly below the former
  \<^verbatim>\<open>best_dist\<close>, and a rejected one leaves \<^verbatim>\<open>best_dist\<close> as it is.
\<close>

theorem new_best_after_success_test:
  "(flt (calc_cost env c) (success_threshold self) \<longrightarrow>
      eval_circuit self env layer st c
        = Inl (Returned c (stored_psols self st) (warnings st)))
   \<and> (eval_circuit self env layer st c = Inr st' \<longrightarrow>
        \<not> flt (calc_cost env c) (success_threshold self)
        \<and> (\<not> isnan (calc_cost env c) \<and> \<not> isnan (success_threshold self)
             \<longrightarrow> fge (calc_cost env c) (success_threshold self))
        \<and> \<not> (flt (calc_cost env c) (success_threshold self) \<and> layer + 1 < best_layer st)
        \<and> (check_new_best self (layer + 1) (calc_cost env c) (best_layer st) (best_dist st)
             \<longrightarrow> best_dist st' = calc_cost env c \<and> flt (best_dist st') (best_dist st))
        \<and> (\<not> check_new_best self (layer + 1) (calc_cost env c) (best_layer st) (best_dist st)
             \<longrightarrow> best_dist st' = best_dist st))"
proof -
  have ret: "flt (calc_cost env c) (success_threshold self) \<longrightarrow>
      eval_circuit self env layer st c
        = Inl (Returned c (stored_psols self st) (warnings st))"
    by (simp add: eval_circuit_Inl)
  have cont: "\<not> flt (calc_cost env c) (success_threshold self)
        \<and> (\<not> isnan (calc_cost env c) \<and> \<not> isnan (success_threshold self)
             \<longrightarrow> fge (calc_cost env c) (success_threshold self))
        \<and> \<not> (flt (calc_cost env c) (success_threshold self) \<and> layer + 1 < best_layer st)
        \<and> (check_new_best self (layer + 1) (calc_cost env c) (best_layer st) (best_dist st)
             \<longrightarrow> best_dist st' = calc_cost env c \<and> flt (best_dist st') (best_dist st))
        \<and> (\<not> check_new_best self (layer + 1) (calc_cost env c) (best_layer st) (best_dist st)
             \<longrightarrow> best_dist st' = best_dist st)"
    if r: "eval_circuit self env layer st c = Inr st'"
  proof -
    have n: "\<not> flt (calc_cost env c) (success_threshold self)"
      using r by (rule eval_circuit_Inr)
    have g: "fge (calc_cost env c) (success_threshold self)"
      if "\<not> isnan (calc_cost env c) \<and> \<not> isnan (success_threshold self)"
      using that n by (simp add: fge_iff)
    have u: "best_dist st' = calc_cost env c \<and> flt (best_dist st') (best_dist st)"
      if nb: "check_new_best self (layer + 1) (calc_cost env c) (best_layer st) (best_dist st)"
    proof -
      have "flt (calc_cost env c) (best_dist st)"
        using nb n by (simp add: check_new_best_no_success)
      then show ?thesis
        using eval_circuit_best_dist [OF r] update_best_new(1) [OF nb] by simp
    qed
    have k: "best_dist st' = best_dist st"
      if "\<not> check_new_best self (layer + 1) (calc_cost env c) (best_layer st) (best_dist st)"
      using that eval_circuit_best_dist [OF r] by (simp add: update_best_unchanged)
    show ?thesis using n g u k by blast
  qed
  show ?thesis using ret cont by blast
qed

theorem new_best_after_success_test_witness:
  "\<not> flt (calc_cost example_env 2) (success_threshold example_pass)
   \<and> fge (calc_cost example_env 2) (success_threshold example_pass)
   \<and> best_dist example_state1 = calc_cost example_env 2
   \<and> flt (best_dist example_state1) (best_dist example_popped)"
proof -
  have nb: "check_new_best example_pass (0 + 1) (calc_cost example_env 2)
      (best_layer example_popped) (best_dist example_popped)"
    using example_freeze by (simp add: freeze_condition_def Let_def)
  have nn: "\<not> isnan (calc_cost example_env 2) \<and> \<not> isnan (success_threshold example_pass)"
    by (simp add: example_env_def example_pass_def)
  show ?thesis
    using new_best_after_success_test
        [of example_env 2 example_pass 0 example_popped example_state1]
      example_eval1 nb nn
    by blast
qed

section \<open>What a prefix freeze leaves in the frontier\<close>

text \<open>
  Claim C3. When the freeze condition holds for a new best circuit found at depth
  \<^verbatim>\<open>layer + 1\<close>, the frontier is cleared and re-seeded with that circuit at depth
  \<^verbatim>\<open>layer + 1\<close> only, and only when \<^verbatim>\<open>max_layer\<close> is \<^verbatim>\<open>None\<close> or
  \<^verbatim>\<open>layer + 1 < max_layer\<close>; otherwise the frontier is left empty. This is what lines 259
  to 263 leave whatever the frontier was, and what the new-best block leaves. At the end
  of the evaluation of this circuit the frontier holds it a second time (line 276, under
  the same test on \<^verbatim>\<open>max_layer\<close>), and nothing else.
\<close>

theorem freeze_reseeds_frontier:
  "map snd (entries (frontier (prefix_freeze self env layer circuit st0))) =
     (if max_layer self = None \<or> (\<exists>ml. max_layer self = Some ml \<and> layer + 1 < ml)
      then [(circuit, layer + 1)] else [])
   \<and> (freeze_condition self env layer st circuit \<longrightarrow>
        map snd (entries (frontier
            (update_best self env layer circuit (calc_cost env circuit) st))) =
          (if max_layer self = None \<or> (\<exists>ml. max_layer self = Some ml \<and> layer + 1 < ml)
           then [(circuit, layer + 1)] else [])
        \<and> (\<exists>st'. eval_circuit self env layer st circuit = Inr st'
              \<and> last_prefix_layer st' = layer + 1
              \<and> map snd (entries (frontier st')) =
                  (if max_layer self = None
                      \<or> (\<exists>ml. max_layer self = Some ml \<and> layer + 1 < ml)
                   then [(circuit, layer + 1), (circuit, layer + 1)] else [])))"
proof -
  have "\<exists>st'. eval_circuit self env layer st circuit = Inr st'
              \<and> last_prefix_layer st' = layer + 1
              \<and> map snd (entries (frontier st')) =
                  (if below_max_layer self layer
                   then [(circuit, layer + 1), (circuit, layer + 1)] else [])"
    if fc: "freeze_condition self env layer st circuit"
  proof -
    from fc have "\<not> flt (calc_cost env circuit) (success_threshold self)"
      by (simp add: freeze_condition_def Let_def)
    then obtain st' where r: "eval_circuit self env layer st circuit = Inr st'"
      using eval_circuit_total [of env circuit self layer st] by auto
    show ?thesis
      using r eval_circuit_frontier [OF r] update_best_frontier_freeze [OF fc] by simp
  qed
  then have "map snd (entries (frontier (prefix_freeze self env layer circuit st0))) =
     (if below_max_layer self layer then [(circuit, layer + 1)] else [])
   \<and> (freeze_condition self env layer st circuit \<longrightarrow>
        map snd (entries (frontier
            (update_best self env layer circuit (calc_cost env circuit) st))) =
          (if below_max_layer self layer then [(circuit, layer + 1)] else [])
        \<and> (\<exists>st'. eval_circuit self env layer st circuit = Inr st'
              \<and> last_prefix_layer st' = layer + 1
              \<and> map snd (entries (frontier st')) =
                  (if below_max_layer self layer
                   then [(circuit, layer + 1), (circuit, layer + 1)] else [])))"
    using update_best_frontier_freeze(1) [of self env layer st circuit]
      prefix_freeze_frontier [of self env layer circuit st0]
    by auto
  then show ?thesis
    unfolding below_max_layer_iff .
qed

theorem freeze_reseeds_frontier_witness:
  "map snd (entries (frontier (prefix_freeze example_pass example_env 0 2 example_popped)))
     = [(2, 1)]
   \<and> map snd (entries (frontier
        (update_best example_pass example_env 0 2 (calc_cost example_env 2) example_popped)))
     = [(2, 1)]
   \<and> (\<exists>st'. eval_circuit example_pass example_env 0 example_popped 2 = Inr st'
         \<and> last_prefix_layer st' = 1
         \<and> map snd (entries (frontier st')) = [(2, 1), (2, 1)])
   \<and> map snd (entries (frontier (prefix_freeze unbounded_pass example_env 0 2 example_state2)))
     = [(2, 1)]
   \<and> map snd (entries (frontier
        (update_best unbounded_pass example_env 0 2 (calc_cost example_env 2) example_popped)))
     = [(2, 1)]
   \<and> (\<exists>st'. eval_circuit unbounded_pass example_env 0 example_popped 2 = Inr st'
         \<and> last_prefix_layer st' = 1
         \<and> map snd (entries (frontier st')) = [(2, 1), (2, 1)])
   \<and> map snd (entries (frontier (prefix_freeze one_layer_pass example_env 0 2 example_state2)))
     = []
   \<and> map snd (entries (frontier
        (update_best one_layer_pass example_env 0 2 (calc_cost example_env 2) example_popped)))
     = []
   \<and> (\<exists>st'. eval_circuit one_layer_pass example_env 0 example_popped 2 = Inr st'
         \<and> last_prefix_layer st' = 1
         \<and> map snd (entries (frontier st')) = [])"
proof -
  have m: "max_layer example_pass = Some 3" "max_layer unbounded_pass = None"
    "max_layer one_layer_pass = Some 1"
    by (simp_all add: example_pass_def unbounded_pass_def one_layer_pass_def)
  show ?thesis
    using freeze_reseeds_frontier
        [of example_pass example_env 0 2 example_popped example_popped]
      freeze_reseeds_frontier
        [of unbounded_pass example_env 0 2 example_state2 example_popped]
      freeze_reseeds_frontier
        [of one_layer_pass example_env 0 2 example_state2 example_popped]
      example_freeze example_freeze_unbounded example_freeze_one_layer
    by (simp add: m)
qed

section \<open>Prefix-freeze safety\<close>

text \<open>
  Claim C4. After a prefix freeze is recorded at layer \<open>L\<close> (the freeze condition holds for
  the successor \<open>c\<close> of a node popped at depth \<open>layer\<close>, and \<^verbatim>\<open>last_prefix_layer\<close> becomes
  \<open>L = layer + 1\<close>), every node popped later has a depth of at least \<open>L\<close>: after the rest
  of the loop over the successors, the end of this iteration and any number \<open>k\<close> of
  further iterations, the node that the next pop returns has depth \<open>d \<ge> L\<close>.
\<close>

theorem prefix_freeze_safety:
  "freeze_condition self env layer st c
   \<and> eval_circuit self env layer st c = Inr st1
   \<and> eval_circuits self env layer st1 cs = Inr st2
   \<and> no_progress_check self layer st2 = Inr st3
   \<and> run_loop self env k st3 = Inr st4
   \<and> frontier_pop (frontier st4) = Some ((c', d), f)
   \<longrightarrow> last_prefix_layer st1 = layer + 1 \<and> last_prefix_layer st1 \<le> d"
proof
  assume a: "freeze_condition self env layer st c
   \<and> eval_circuit self env layer st c = Inr st1
   \<and> eval_circuits self env layer st1 cs = Inr st2
   \<and> no_progress_check self layer st2 = Inr st3
   \<and> run_loop self env k st3 = Inr st4
   \<and> frontier_pop (frontier st4) = Some ((c', d), f)"
  then have 1: "layers_at_least (layer + 1) (frontier st1)"
    and L: "last_prefix_layer st1 = layer + 1"
    using freeze_at_least [of self env layer st c st1] by simp_all
  have 2: "layers_at_least (layer + 1) (frontier st2)"
    using a 1 eval_circuits_at_least [of self env layer st1 cs st2 "layer + 1"] by simp
  have 3: "layers_at_least (layer + 1) (frontier st3)"
    using a 2 no_progress_check_fields(2) [of self layer st2 st3] by simp
  have 4: "layers_at_least (layer + 1) (frontier st4)"
    using a 3 run_loop_at_least [of self env k st3 st4 "layer + 1"] by simp
  have "layer + 1 \<le> d"
    using a 4 frontier_pop_at_least(1) [of "frontier st4" c' d f "layer + 1"] by simp
  then show "last_prefix_layer st1 = layer + 1 \<and> last_prefix_layer st1 \<le> d"
    using L by simp
qed

theorem prefix_freeze_safety_witness:
  "last_prefix_layer example_state1 = 1
   \<and> frontier_pop (frontier example_state3)
       = Some ((2, 1), \<lparr>entries = [((3, 3), (3, 1))], counter = 4\<rparr>)
   \<and> last_prefix_layer example_state1 \<le> 1"
  using prefix_freeze_safety
      [of example_pass example_env 0 example_popped 2 example_state1 "[3]" example_state2
          example_state2 1 example_state3 2 1 "\<lparr>entries = [((3, 3), (3, 1))], counter = 4\<rparr>"]
    example_freeze example_eval1 example_eval2 example_no_progress example_run_2_3
    example_pop3
  by simp

section \<open>The frontier empties\<close>



section \<open>The partial solutions of each depth\<close>

text \<open>
  Claim C9, as stated, fails in three cases. A successor whose cost is below
  \<^verbatim>\<open>success_threshold\<close> is evaluated and returned without being appended: the stored
  \<^verbatim>\<open>psols\<close> has no bucket for its layer. With \<^verbatim>\<open>partials_per_depth = -1\<close> the bucket
  is empty after the successor, which is more than \<^verbatim>\<open>partials_per_depth\<close> entries. And
  with \<^verbatim>\<open>partials_per_depth = 2\<close> and successors of cost \<open>5\<close>, NaN and \<open>1\<close>, the bucket of
  the costs \<open>5\<close>, NaN, \<open>1\<close> has no entry that costs less than the entry before it, so the
  sort leaves it as it is: the entry removed is the third, which is the one of least
  cost, and the bucket keeps the costs \<open>5\<close> and NaN.
\<close>

theorem partial_solutions_counterexample:
  "eval_circuit example_pass success_env 0 example_popped 2
     = Inl (Returned 2 (Some (psols example_popped)) [])
   \<and> psols example_popped 0 = None
   \<and> psols (projr (eval_circuit negative_pass example_env 0 example_popped 2)) 0 = Some []
   \<and> partials_per_depth negative_pass < int (length ([] :: (nat \<times> pyfloat) list))
   \<and> psols (projr (eval_circuits two_partials_pass nan_bucket_env 0 example_popped [2, 3])) 0
       = Some [(2, Fin 5), (3, NaN)]
   \<and> calc_cost nan_bucket_env 9 = Fin 1
   \<and> psols (projr (eval_circuits two_partials_pass nan_bucket_env 0 example_popped [2, 3, 9])) 0
       = Some [(2, Fin 5), (3, NaN)]
   \<and> flt (Fin 1) (Fin 5)"
proof -
  have "eval_circuit example_pass success_env 0 example_popped 2
     = Inl (Returned 2 (Some (psols example_popped)) [])
   \<and> psols example_popped 0 = None
   \<and> psols (projr (eval_circuit negative_pass example_env 0 example_popped 2)) 0 = Some []
   \<and> partials_per_depth negative_pass < int (length ([] :: (nat \<times> pyfloat) list))"
    by (simp add: eval_circuit_def success_env_def negative_pass_def example_env_def
        example_pass_def example_popped_def example_state0_def Let_def stored_psols_def
        store_partial_def update_best_psols insertion_sort_by_cost_def)
  moreover have "calc_cost nan_bucket_env 9 = Fin 1"
    by (simp add: nan_bucket_env_def)
  ultimately show ?thesis
    using nan_bucket_eval2 nan_bucket_eval3 by auto
qed

text \<open>
  Claim C9, amended. With \<^verbatim>\<open>store_partial_solutions\<close> enabled, every successor that does
  not end the search (its cost is not below \<^verbatim>\<open>success_threshold\<close>) is appended, paired with
  its cost, to \<^verbatim>\<open>psols[layer]\<close>, \<open>layer\<close> being the depth of the popped node; if the bucket
  is then longer than \<^verbatim>\<open>partials_per_depth\<close> it is sorted with \<^verbatim>\<open>list.sort\<close> on the cost and
  the last entry of the result is removed; the other buckets are unchanged. The sorted
  bucket is a permutation of the bucket, so that what is kept is the bucket without the
  removed entry. When no cost in the bucket is NaN the sorted bucket is ascending and no
  entry costs more than the removed one. When \<^verbatim>\<open>partials_per_depth\<close> is not negative, no
  bucket holds more than \<^verbatim>\<open>partials_per_depth\<close> entries after a successor, nor in any state
  that the loop reaches from the initial one.
\<close>

theorem partial_solutions_bookkeeping:
  "(store_partial_solutions self \<and> eval_circuit self env layer st c = Inr st' \<longrightarrow>
      \<not> flt (calc_cost env c) (success_threshold self)
      \<and> psols st' layer =
          Some (let bucket = (case psols st layer of None \<Rightarrow> [] | Some b \<Rightarrow> b)
                               @ [(c, calc_cost env c)]
                in if int (length bucket) > partials_per_depth self
                   then butlast (list_sort env bucket) else bucket)
      \<and> (\<forall>l. l \<noteq> layer \<longrightarrow> psols st' l = psols st l))
   \<and> (\<not> flt (calc_cost env c) (success_threshold self) \<longrightarrow>
        (\<exists>st'. eval_circuit self env layer st c = Inr st'))
   \<and> (sort_contract (list_sort env) \<and> bucket \<noteq> [] \<longrightarrow>
        mset (list_sort env bucket) = mset bucket
        \<and> add_mset (last (list_sort env bucket)) (mset (butlast (list_sort env bucket)))
            = mset bucket)
   \<and> (sort_contract (list_sort env) \<and> (\<forall>x\<in>set bucket. \<not> isnan (snd x)) \<longrightarrow>
        ascending (list_sort env bucket)
        \<and> (\<forall>x\<in>set bucket. \<not> flt (snd (last (list_sort env bucket))) (snd x)))
   \<and> (sort_contract (list_sort env) \<and> 0 \<le> partials_per_depth self
        \<and> buckets_bounded (partials_per_depth self) (psols st)
        \<and> eval_circuit self env layer st c = Inr st'
        \<longrightarrow> buckets_bounded (partials_per_depth self) (psols st'))
   \<and> (sort_contract (list_sort env) \<and> 0 \<le> partials_per_depth self
        \<and> run_loop self env k (initial_state env) = Inr st2
        \<longrightarrow> buckets_bounded (partials_per_depth self) (psols st2))"
proof -
  have 1: "\<not> flt (calc_cost env c) (success_threshold self)
      \<and> psols st' layer =
          Some (let bucket = (case psols st layer of None \<Rightarrow> [] | Some b \<Rightarrow> b)
                               @ [(c, calc_cost env c)]
                in if int (length bucket) > partials_per_depth self
                   then butlast (list_sort env bucket) else bucket)
      \<and> (\<forall>l. l \<noteq> layer \<longrightarrow> psols st' l = psols st l)"
    if "store_partial_solutions self" and r: "eval_circuit self env layer st c = Inr st'"
    using that eval_circuit_psols [OF r] eval_circuit_Inr [OF r] by simp
  have 2: "\<exists>st'. eval_circuit self env layer st c = Inr st'"
    if "\<not> flt (calc_cost env c) (success_threshold self)"
    using that eval_circuit_total [of env c self layer st] by simp
  have 3: "mset (list_sort env bucket) = mset bucket
        \<and> add_mset (last (list_sort env bucket)) (mset (butlast (list_sort env bucket)))
            = mset bucket"
    if "sort_contract (list_sort env)" "bucket \<noteq> []"
    using that sort_contract_butlast [of "list_sort env" bucket]
    by (simp add: sort_contract_def)
  have 4: "ascending (list_sort env bucket)
        \<and> (\<forall>x\<in>set bucket. \<not> flt (snd (last (list_sort env bucket))) (snd x))"
    if "sort_contract (list_sort env)" "\<forall>x\<in>set bucket. \<not> isnan (snd x)"
    using that sort_contract_last_worst [of "list_sort env" bucket]
    by (simp add: sort_contract_def)
  have 5: "buckets_bounded (partials_per_depth self) (psols st')"
    if "sort_contract (list_sort env)" "0 \<le> partials_per_depth self"
      "buckets_bounded (partials_per_depth self) (psols st)"
      "eval_circuit self env layer st c = Inr st'"
    using that eval_circuit_bounded [of self env layer st c st'] by simp
  have 6: "buckets_bounded (partials_per_depth self) (psols st2)"
    if "sort_contract (list_sort env)" "0 \<le> partials_per_depth self"
      "run_loop self env k (initial_state env) = Inr st2"
    using that run_loop_bounded [of self env k "initial_state env" st2]
      initial_state_bounded [of "partials_per_depth self" env] by simp
  show ?thesis using 1 2 3 4 5 6 by blast
qed

theorem partial_solutions_bookkeeping_witness:
  "psols example_state2 0 = Some [(3, Fin 7)]
   \<and> psols example_state2 1 = psols example_state1 1
   \<and> list_sort example_env [(2, Fin 8), (3, Fin 7)] = [(3, Fin 7), (2, Fin 8)]
   \<and> add_mset (2, Fin 8) {#(3, Fin 7)#} = mset [(2 :: nat, Fin 8), (3, Fin 7)]
   \<and> ascending (list_sort example_env [(2, Fin 8), (3, Fin 7)])
   \<and> \<not> flt (snd (last (list_sort example_env [(2, Fin 8), (3, Fin 7)]))) (Fin 7)
   \<and> buckets_bounded 1 (psols example_state2)
   \<and> buckets_bounded 1 (psols example_state5)"
proof -
  have s: "store_partial_solutions example_pass" and p: "partials_per_depth example_pass = 1"
    by (simp_all add: example_pass_def)
  have sc: "sort_contract (list_sort example_env)"
    using insertion_sort_contract [where ?'a = nat] by (simp add: example_env_def)
  have b1: "buckets_bounded (partials_per_depth example_pass) (psols example_state1)"
    by (simp add: buckets_bounded_def example_state1_def p)
  have nn: "\<forall>x\<in>set [(2 :: nat, Fin 8), (3, Fin 7)]. \<not> isnan (snd x)"
    by simp
  have r: "run_loop example_pass example_env 4 (initial_state example_env) = Inr example_state5"
    by (simp add: example_initial example_run4)
  have old: "psols example_state1 0 = Some [(2, Fin 8)]"
    "calc_cost example_env 3 = Fin 7"
    by (simp_all add: example_state1_def example_env_def)
  have sorted: "list_sort example_env [(2, Fin 8), (3, Fin 7)] = [(3, Fin 7), (2, Fin 8)]"
    by (simp add: example_env_def insertion_sort_by_cost_def)
  show ?thesis
    using partial_solutions_bookkeeping
        [of example_pass example_env 0 example_state1 3 example_state2
            "[(2 :: nat, Fin 8), (3, Fin 7)]" 4 example_state5]
      s sc b1 nn r example_eval2
    by (simp add: p old sorted)
qed

section \<open>Properties of the replace filter\<close>

lemma any_edge_outside_covered:
  "\<forall>e\<in>set es. fst e < length loc \<and> snd e < length loc \<Longrightarrow>
     any_edge_outside model loc es =
       Inr (\<exists>e\<in>set es.
              \<not> in_coupling_graph (loc ! fst e, loc ! snd e) (model_coupling_graph model))"
  by (induction es) auto

lemma location_edges_mem:
  "(a, b) \<in> set (location_edges loc) \<Longrightarrow> a \<in> set loc \<and> b \<in> set loc"
  by (auto simp: location_edges_def)

lemma circuit_wf_covers:
  assumes "circuit_wf org" and "length loc = num_qudits org"
  shows "location_covers loc org"
proof -
  have "fst e < length loc \<and> snd e < length loc" if "e \<in> set (coupling_graph org)" for e
  proof -
    from that obtain op where op: "op \<in> set (operations org)"
      and e: "e \<in> set (location_edges (location op))"
      by (auto simp: coupling_graph_def)
    have "fst e \<in> set (location op) \<and> snd e \<in> set (location op)"
      using location_edges_mem [of "fst e" "snd e" "location op"] e by simp
    moreover have "\<forall>q\<in>set (location op). q < num_qudits org"
      using assms(1) op by (auto simp: circuit_wf_def list_all_iff)
    ultimately show ?thesis using assms(2) by simp
  qed
  then show ?thesis by (simp add: location_covers_def)
qed

lemma sum_indicator_distinct:
  "distinct xs \<Longrightarrow>
     sum_list (map (\<lambda>g. if a = g then (1 :: int) else 0) xs) = (if a \<in> set xs then 1 else 0)"
  by (induction xs) auto

lemma sum_count_filter:
  assumes "distinct xs"
  shows "sum_list (map (\<lambda>g. int (length (filter (\<lambda>op. f op = g) ops))) xs)
     = int (length (filter (\<lambda>op. f op \<in> set xs) ops))"
proof (induction ops)
  case Nil
  then show ?case by simp
next
  case (Cons op ops)
  have "sum_list (map (\<lambda>g. int (length (filter (\<lambda>op. f op = g) (op # ops)))) xs)
      = sum_list (map (\<lambda>g. (if f op = g then 1 else 0)
                            + int (length (filter (\<lambda>op. f op = g) ops))) xs)"
    by (intro arg_cong [where f = sum_list] map_cong) auto
  also have "\<dots> = sum_list (map (\<lambda>g. if f op = g then 1 else 0) xs)
      + sum_list (map (\<lambda>g. int (length (filter (\<lambda>op. f op = g) ops))) xs)"
    by (simp add: sum_list_addf)
  also have "\<dots> = (if f op \<in> set xs then 1 else 0)
      + int (length (filter (\<lambda>op. f op \<in> set xs) ops))"
    using Cons.IH sum_indicator_distinct [OF assms, of "f op"] by simp
  finally show ?case by simp
qed

lemma count_by_width:
  "sum_list (map (count_gate c) (filter p (gate_set c)))
     = int (length (filter (\<lambda>op. p (op_gate op)) (operations c)))"
proof -
  have d: "distinct (filter p (gate_set c))"
    by (simp add: gate_set_def)
  have "sum_list (map (count_gate c) (filter p (gate_set c)))
      = int (length (filter (\<lambda>op. op_gate op \<in> set (filter p (gate_set c))) (operations c)))"
    using sum_count_filter [OF d, of op_gate "operations c"]
    by (simp add: count_gate_def [abs_def])
  also have "\<dots> = int (length (filter (\<lambda>op. p (op_gate op)) (operations c)))"
    by (intro arg_cong [where f = int] arg_cong [where f = length] filter_cong)
      (auto simp: gate_set_def)
  finally show ?thesis .
qed

lemma sq_count_operations:
  "sq_count c = int (length (filter (\<lambda>op. gate_num_qudits (op_gate op) = 1) (operations c)))"
  by (simp add: sq_count_def count_by_width)

lemma mq_count_operations:
  "mq_count c = int (length (filter (\<lambda>op. 2 \<le> gate_num_qudits (op_gate op)) (operations c)))"
  by (simp add: mq_count_def count_by_width)

lemma replace_filter_not_circuit_gate:
  "\<forall>org. op_gate old \<noteq> CircuitGate org \<Longrightarrow> replace_filter model new old = Inr True"
  by (cases "op_gate old") (simp_all add: replace_filter_def)

lemma replace_filter_non_native:
  "op_gate old = CircuitGate org \<Longrightarrow> has_non_native_gate model org \<Longrightarrow>
     replace_filter model new old = Inr True"
  by (simp add: replace_filter_def has_non_native_gate_def list_ex_iff)

lemma replace_filter_covered:
  assumes "op_gate old = CircuitGate org" and "location_covers (location old) org"
    and "\<not> has_non_native_gate model org"
  shows "replace_filter model new old =
     Inr (has_edge_outside model (location old) org
          \<or> tuple_less (mq_count new, sq_count new) (mq_count org, sq_count org))"
proof -
  have "any_edge_outside model (location old) (coupling_graph org)
      = Inr (has_edge_outside model (location old) org)"
    using assms(2) any_edge_outside_covered [of "coupling_graph org" "location old" model]
    by (simp add: location_covers_def has_edge_outside_def)
  then show ?thesis
    using assms(1,3)
    by (simp add: replace_filter_def has_non_native_gate_def list_ex_iff Let_def
        split: bool.splits)
qed

lemma example_counts:
  "mq_count example_org = 2" "sq_count example_org = 1"
  "mq_count example_new = 1" "sq_count example_new = 1"
  by (simp_all add: mq_count_operations sq_count_operations example_org_def example_new_def
      CNOTGate_def U3Gate_def)

lemma example_org_wf: "circuit_wf example_org" "num_qudits example_org = 2"
  by (simp_all add: circuit_wf_def example_org_def num_qudits_def CNOTGate_def U3Gate_def)

lemma example_org_graph: "coupling_graph example_org = [(0, 1)]"
  by (simp add: coupling_graph_def example_org_def location_edges_def)

lemma example_org_native: "\<not> has_non_native_gate example_model example_org"
  by (simp add: has_non_native_gate_def gate_set_def example_org_def example_model_def)

lemma example_swap_non_native: "has_non_native_gate example_model example_swap_org"
  by (simp add: has_non_native_gate_def gate_set_def example_swap_org_def example_model_def
      CNOTGate_def U3Gate_def)

lemma example_edges:
  "\<not> has_edge_outside example_model [0, 1] example_org"
  "has_edge_outside example_model [0, 2] example_org"
  by (simp_all add: has_edge_outside_def example_org_graph example_model_def
      in_coupling_graph_def)

text \<open>
  Claim C6. The replace filter generated for the standard workflows accepts \<open>new\<close> when the
  gate of \<open>old\<close> is not a circuit gate, when the body \<open>org\<close> of \<open>old\<close> contains a gate
  outside the gate set of the model, and when an edge of \<open>org\<close> maps through the location
  of \<open>old\<close> to a pair outside the coupling graph of the model; otherwise it accepts exactly
  when the pair (multi-qudit count, single-qudit count) of \<open>new\<close> is lexicographically below
  that of \<open>org\<close>: the multi-qudit count is strictly smaller, or it is equal and the
  single-qudit count is strictly smaller. Ties are rejected. The two counts are the
  numbers of operations on at least two qudits and on one qudit. The location of \<open>old\<close>
  has as many qudits as \<open>org\<close>, so that no index is out of range.
\<close>

theorem replace_filter_spec:
  "((\<forall>org. op_gate old \<noteq> CircuitGate org) \<longrightarrow> gen_replace_filter model new old = Inr True)
   \<and> (op_gate old = CircuitGate org \<and> has_non_native_gate model org
        \<longrightarrow> gen_replace_filter model new old = Inr True)
   \<and> (op_gate old = CircuitGate org \<and> circuit_wf org
        \<and> length (location old) = num_qudits org \<longrightarrow>
        (has_edge_outside model (location old) org
           \<longrightarrow> gen_replace_filter model new old = Inr True)
        \<and> (\<not> has_non_native_gate model org \<and> \<not> has_edge_outside model (location old) org
             \<longrightarrow>
             gen_replace_filter model new old =
               Inr (tuple_less (mq_count new, sq_count new) (mq_count org, sq_count org))
             \<and> (gen_replace_filter model new old = Inr True \<longleftrightarrow>
                  mq_count new < mq_count org
                  \<or> (mq_count new = mq_count org \<and> sq_count new < sq_count org))
             \<and> (mq_count new = mq_count org \<and> sq_count new = sq_count org
                  \<longrightarrow> gen_replace_filter model new old = Inr False)))
   \<and> mq_count new
       = int (length (filter (\<lambda>op. 2 \<le> gate_num_qudits (op_gate op)) (operations new)))
   \<and> sq_count new
       = int (length (filter (\<lambda>op. gate_num_qudits (op_gate op) = 1) (operations new)))"
proof -
  have 1: "gen_replace_filter model new old = Inr True"
    if "\<forall>org. op_gate old \<noteq> CircuitGate org"
    using that by (simp add: gen_replace_filter_def replace_filter_not_circuit_gate)
  have 2: "gen_replace_filter model new old = Inr True"
    if "op_gate old = CircuitGate org" "has_non_native_gate model org"
    using that by (simp add: gen_replace_filter_def replace_filter_non_native)
  have 3: "(has_edge_outside model (location old) org
           \<longrightarrow> gen_replace_filter model new old = Inr True)
        \<and> (\<not> has_non_native_gate model org \<and> \<not> has_edge_outside model (location old) org
             \<longrightarrow>
             gen_replace_filter model new old =
               Inr (tuple_less (mq_count new, sq_count new) (mq_count org, sq_count org))
             \<and> (gen_replace_filter model new old = Inr True \<longleftrightarrow>
                  mq_count new < mq_count org
                  \<or> (mq_count new = mq_count org \<and> sq_count new < sq_count org))
             \<and> (mq_count new = mq_count org \<and> sq_count new = sq_count org
                  \<longrightarrow> gen_replace_filter model new old = Inr False))"
    if g: "op_gate old = CircuitGate org" and wf: "circuit_wf org"
      and len: "length (location old) = num_qudits org"
  proof -
    have cov: "location_covers (location old) org"
      using wf len by (rule circuit_wf_covers)
    show ?thesis
    proof (cases "has_non_native_gate model org")
      case True
      then show ?thesis using 2 [OF g] by simp
    next
      case False
      have "gen_replace_filter model new old =
          Inr (has_edge_outside model (location old) org
               \<or> tuple_less (mq_count new, sq_count new) (mq_count org, sq_count org))"
        using replace_filter_covered [OF g cov False, of new]
        by (simp add: gen_replace_filter_def)
      then show ?thesis by (auto simp: tuple_less_def)
    qed
  qed
  show ?thesis
    using 1 2 3 mq_count_operations [of new] sq_count_operations [of new] by blast
qed

theorem replace_filter_spec_witness:
  "gen_replace_filter example_model example_new (Operation CNOTGate [0, 1]) = Inr True
   \<and> gen_replace_filter example_model example_new
        (Operation (CircuitGate example_swap_org) [0, 1]) = Inr True
   \<and> gen_replace_filter example_model example_new
        (Operation (CircuitGate example_org) [0, 2]) = Inr True
   \<and> gen_replace_filter example_model example_new
        (Operation (CircuitGate example_org) [0, 1]) = Inr True
   \<and> gen_replace_filter example_model example_org
        (Operation (CircuitGate example_org) [0, 1]) = Inr False
   \<and> mq_count example_new = 1 \<and> sq_count example_new = 1"
proof -
  have a: "gen_replace_filter example_model example_new (Operation CNOTGate [0, 1]) = Inr True"
    using replace_filter_spec [of "Operation CNOTGate [0, 1]" example_model example_new]
    by (simp add: CNOTGate_def)
  have b: "gen_replace_filter example_model example_new
        (Operation (CircuitGate example_swap_org) [0, 1]) = Inr True"
    using replace_filter_spec
        [of "Operation (CircuitGate example_swap_org) [0, 1]" example_model example_new
            example_swap_org]
      example_swap_non_native
    by simp
  have c: "gen_replace_filter example_model example_new
        (Operation (CircuitGate example_org) [0, 2]) = Inr True"
    using replace_filter_spec
        [of "Operation (CircuitGate example_org) [0, 2]" example_model example_new example_org]
      example_org_wf example_edges(2)
    by simp
  have d: "gen_replace_filter example_model example_new
        (Operation (CircuitGate example_org) [0, 1]) = Inr True"
    using replace_filter_spec
        [of "Operation (CircuitGate example_org) [0, 1]" example_model example_new example_org]
      example_org_wf example_edges(1) example_org_native
    by (simp add: example_counts tuple_less_def)
  have e: "gen_replace_filter example_model example_org
        (Operation (CircuitGate example_org) [0, 1]) = Inr False"
    using replace_filter_spec
        [of "Operation (CircuitGate example_org) [0, 1]" example_model example_org example_org]
      example_org_wf example_edges(1) example_org_native
    by (simp add: tuple_less_def)
  show ?thesis using a b c d e by (simp add: example_counts)
qed

section \<open>The errors of \<^verbatim>\<open>compile\<close>\<close>

lemma gate_width_le:
  assumes "circuit_wf c" and "g \<in> set (gate_set c)"
  shows "gate_num_qudits g \<le> num_qudits c"
proof -
  from assms(2) obtain op where op: "op \<in> set (operations c)" and g: "op_gate op = g"
    by (auto simp: gate_set_def)
  have len: "length (location op) = gate_num_qudits g"
    and d: "distinct (location op)"
    and lt: "\<forall>q\<in>set (location op). q < num_qudits c"
    using assms(1) op g by (auto simp: circuit_wf_def list_all_iff)
  have "set (location op) \<subseteq> {..<num_qudits c}"
    using lt by auto
  then have "card (set (location op)) \<le> card {..<num_qudits c}"
    by (intro card_mono) simp_all
  then show ?thesis
    using distinct_card [OF d] len by simp
qed

lemma task_of_input_wide_gate:
  assumes "circuit_wf c" and "g \<in> set (gate_set c)"
    and "int (gate_num_qudits g) > mss" and "\<not> is_measurement g"
  shows "task_of_input (InputCircuit c) m level mss = Inl ValueError"
proof -
  have "int (num_qudits c) > mss"
    using gate_width_le [OF assms(1,2)] assms(3) by simp
  moreover have "list_ex (\<lambda>g. int (gate_num_qudits g) > mss \<and> \<not> is_measurement g) (gate_set c)"
    using assms(2,3,4) by (auto simp: list_ex_iff)
  ultimately show ?thesis by (simp add: task_of_input_def)
qed

lemma check_levels_wide_gate:
  assumes "task_of_input input m level mss = Inl ValueError"
  shows "check_levels input m (IntArg level) (IntArg mss) = Inl ValueError"
  using assms by (simp add: check_levels_def)

lemma build_task_value_error:
  assumes "input \<noteq> InputOther"
    and "check_levels input m ol mss = Inl ValueError"
  shows "build_task input (Model m) ol mss = Inl ValueError"
  using assms by (simp add: build_task_def Let_def)

lemma build_task_default_value_error:
  assumes "input \<noteq> InputOther"
    and "\<And>m. check_levels input m ol mss = Inl ValueError"
  shows "build_task input ModelNone ol mss = Inl ValueError"
  using assms by (simp add: build_task_def Let_def)

lemma compile_build_task:
  "build_task input model ol mss = Inl err \<Longrightarrow> compile input model ol mss compiler = Inl err"
  by (simp add: compile_def)


lemma default_model_fields:
  "model_num_qudits (default_model n) = n"
  "model_radixes (default_model n) = replicate n 2"
  "model_gate_set (default_model n) = [CNOTGate, U3Gate]"
  by (simp_all add: default_model_def)

lemma all_qubits_default: "all_qubits (model_radixes (default_model n))"
  by (simp add: default_model_def all_qubits_def list_all_iff)

text \<open>
  Claim C7, as stated, fails on its case (c). The test of lines 207 to 218 leaves out the
  gates that are measurement placeholders: a circuit of four qubits whose only gate is a
  measurement of all four, compiled with \<^verbatim>\<open>max_synthesis_size = 3\<close>, contains a gate wider
  than \<^verbatim>\<open>max_synthesis_size\<close>, and no check of \<^verbatim>\<open>compile\<close> raises: the task is built and
  handed to the compiler. And when \<^verbatim>\<open>optimization_level\<close> is not an integer, a circuit
  with a wide gate raises the \<^verbatim>\<open>TypeError\<close> of line 141, which comes first.
\<close>

theorem compile_measurement_counterexample:
  "build_task (InputCircuit measured_circuit) ModelNone (IntArg 1) (IntArg 3)
     = Inr \<lparr>task_circuit = measured_circuit, task_model = default_model 4, task_level = 1,
            task_entangler_size = 2\<rparr>
   \<and> compile (InputCircuit measured_circuit) ModelNone (IntArg 1) (IntArg 3) identity_compiler
       = Inr measured_circuit
   \<and> gate_set measured_circuit = [MeasurementPlaceholder 4]
   \<and> 3 < int (gate_num_qudits (MeasurementPlaceholder 4))
   \<and> circuit_wf measured_circuit
   \<and> compile (InputCircuit wide_circuit) ModelNone NotInt (IntArg 3) identity_compiler
       = Inl TypeError"
  by (simp add: compile_def build_task_def check_levels_def task_of_input_def
      circuit_workflow_def smallest_entangler_size_def default_model_fields
      all_qubits_default measured_circuit_def wide_circuit_def identity_compiler_def
      all_qubits_def input_num_qudits_def num_qudits_def gate_set_def circuit_wf_def
      CNOTGate_def U3Gate_def Let_def eval_nat_numeral)

text \<open>
  Claim C7, amended. \<^verbatim>\<open>compile\<close> raises a \<^verbatim>\<open>TypeError\<close> for an input that is neither a
  circuit, a unitary nor a pure state. For an input that is one of the three it raises a
  \<^verbatim>\<open>ValueError\<close> when (a) the input has a non-qubit radix, or the model is a machine model
  with a non-qubit radix, (b) the model is a machine model with fewer qudits than the
  input, (d) the model is a machine model without a gate on two or more qudits and the
  input has more than one qudit, and (c) the input is a circuit that contains a gate wider
  than \<^verbatim>\<open>max_synthesis_size\<close> that is not a measurement placeholder, where
  \<^verbatim>\<open>optimization_level\<close> and \<^verbatim>\<open>max_synthesis_size\<close> are integers and the model is \<^verbatim>\<open>None\<close>
  or a machine model. Each of them is raised before the task reaches the compiler: the
  result is the same whatever the compiler does.
\<close>

theorem compile_errors:
  "compile InputOther model ol mss compiler = Inl TypeError
   \<and> (input \<noteq> InputOther \<and> \<not> all_qubits (input_radixes input) \<longrightarrow>
        compile input model ol mss compiler = Inl ValueError)
   \<and> (input \<noteq> InputOther \<and> \<not> all_qubits (model_radixes m) \<longrightarrow>
        compile input (Model m) ol mss compiler = Inl ValueError)
   \<and> (input \<noteq> InputOther \<and> model_num_qudits m < input_num_qudits input \<longrightarrow>
        compile input (Model m) ol mss compiler = Inl ValueError)
   \<and> (input \<noteq> InputOther \<and> input_num_qudits input > 1
        \<and> filter (\<lambda>g. gate_num_qudits g \<ge> 2) (model_gate_set m) = [] \<longrightarrow>
        compile input (Model m) ol mss compiler = Inl ValueError)
   \<and> (circuit_wf c \<and> model \<noteq> ModelOther
        \<and> (\<exists>g\<in>set (gate_set c). int (gate_num_qudits g) > size_limit \<and> \<not> is_measurement g)
        \<longrightarrow> compile (InputCircuit c) model (IntArg level) (IntArg size_limit) compiler
              = Inl ValueError)"
proof -
  have t: "compile InputOther model ol mss compiler = Inl TypeError"
    by (simp add: compile_def build_task_def)
  have a: "compile input model ol mss compiler = Inl ValueError"
    if "input \<noteq> InputOther" "\<not> all_qubits (input_radixes input)"
    using that by (simp add: compile_def build_task_def)
  have a': "compile input (Model m) ol mss compiler = Inl ValueError"
    if "input \<noteq> InputOther" "\<not> all_qubits (model_radixes m)"
    using that by (simp add: compile_def build_task_def)
  have b: "compile input (Model m) ol mss compiler = Inl ValueError"
    if "input \<noteq> InputOther" "model_num_qudits m < input_num_qudits input"
    using that by (simp add: compile_def build_task_def)
  have d: "compile input (Model m) ol mss compiler = Inl ValueError"
    if "input \<noteq> InputOther" "input_num_qudits input > 1"
      "filter (\<lambda>g. gate_num_qudits g \<ge> 2) (model_gate_set m) = []"
    using that by (simp add: compile_def build_task_def Let_def)
  have c: "compile (InputCircuit c) model (IntArg level) (IntArg size_limit) compiler
             = Inl ValueError"
    if wf: "circuit_wf c" and mo: "model \<noteq> ModelOther"
      and g: "\<exists>g\<in>set (gate_set c). int (gate_num_qudits g) > size_limit \<and> \<not> is_measurement g"
  proof -
    from g obtain g where g: "g \<in> set (gate_set c)" "int (gate_num_qudits g) > size_limit"
      "\<not> is_measurement g"
      by blast
    have cl: "check_levels (InputCircuit c) m' (IntArg level) (IntArg size_limit)
                = Inl ValueError" for m'
      using task_of_input_wide_gate [OF wf g] by (rule check_levels_wide_gate)
    have "build_task (InputCircuit c) model (IntArg level) (IntArg size_limit) = Inl ValueError"
    proof (cases model)
      case ModelNone
      then show ?thesis
        using build_task_default_value_error [of "InputCircuit c"] cl by simp
    next
      case (Model m')
      then show ?thesis
        using build_task_value_error [of "InputCircuit c"] cl by simp
    next
      case ModelOther
      then show ?thesis using mo by simp
    qed
    then show ?thesis by (rule compile_build_task)
  qed
  show ?thesis using t a a' b d c by blast
qed

theorem compile_errors_witness:
  "compile InputOther ModelNone (IntArg 1) (IntArg 3) identity_compiler = Inl TypeError
   \<and> compile (InputUnitary [3, 3]) ModelNone (IntArg 1) (IntArg 3) identity_compiler
       = Inl ValueError
   \<and> compile (InputUnitary [2, 2]) (Model qutrit_model) (IntArg 1) (IntArg 3) identity_compiler
       = Inl ValueError
   \<and> compile (InputUnitary [2, 2]) (Model small_model) (IntArg 1) (IntArg 3) identity_compiler
       = Inl ValueError
   \<and> compile (InputUnitary [2, 2]) (Model no_entangler_model) (IntArg 1) (IntArg 3)
         identity_compiler
       = Inl ValueError
   \<and> compile (InputCircuit wide_circuit) ModelNone (IntArg 1) (IntArg 3) identity_compiler
       = Inl ValueError"
proof -
  have wf: "circuit_wf wide_circuit"
    and g: "\<exists>g\<in>set (gate_set wide_circuit). int (gate_num_qudits g) > 3 \<and> \<not> is_measurement g"
    by (simp_all add: wide_circuit_def circuit_wf_def gate_set_def num_qudits_def)
  have r: "\<not> all_qubits (input_radixes (InputUnitary [3, 3]))"
    "\<not> all_qubits (model_radixes qutrit_model)"
    "model_num_qudits small_model < input_num_qudits (InputUnitary [2, 2])"
    "input_num_qudits (InputUnitary [2, 2]) > 1"
    "filter (\<lambda>g. gate_num_qudits g \<ge> 2) (model_gate_set no_entangler_model) = []"
    by (simp_all add: all_qubits_def qutrit_model_def small_model_def no_entangler_model_def
        default_model_def input_num_qudits_def U3Gate_def)
  show ?thesis
    using compile_errors [of ModelNone "IntArg 1" "IntArg 3" identity_compiler
          "InputUnitary [3, 3]" qutrit_model wide_circuit 3 1]
      compile_errors [of ModelNone "IntArg 1" "IntArg 3" identity_compiler
          "InputUnitary [2, 2]" qutrit_model wide_circuit 3 1]
      compile_errors [of ModelNone "IntArg 1" "IntArg 3" identity_compiler
          "InputUnitary [2, 2]" small_model wide_circuit 3 1]
      compile_errors [of ModelNone "IntArg 1" "IntArg 3" identity_compiler
          "InputUnitary [2, 2]" no_entangler_model wide_circuit 3 1]
      wf g r
    by simp
qed

end
